theory Spec2Isabelle
  imports Complex_Main
begin

section \<open>Weather display: a shallow embedding of \<open>src/main.py\<close>\<close>

text \<open>
  The program is a single-threaded frame loop. Its module-level globals and the locals
  of \<open>main\<close> become one record that every step takes and returns; whatever the
  program reads from outside (the wall clock, HTTP replies, the rasteriser) is an
  explicit input; whatever it does to the outside (requests, cache files, frames,
  sleeping) is logged in a list of effects. Python exceptions are values of \<open>error\<close>.
  Timestamps are Python floats; they are modelled as reals, so rounding of the
  subtraction of two timestamps is outside the model.
\<close>

datatype error = ValueError | IndexError | AttributeError | ZeroDivisionError

subsection \<open>Strings: the builtins the program calls\<close>

text \<open>
  \<open>str.split(sep)\<close> with a one-character separator: every occurrence splits, and the
  empty string gives one empty part. The \<open>[]\<close> branch of the case is never taken
  (the result is never empty) and is only there because every HOL function is total.
\<close>

fun split_on :: "char \<Rightarrow> string \<Rightarrow> string list" where
  "split_on sep [] = [[]]"
| "split_on sep (c # cs) =
     (if c = sep then [] # split_on sep cs
      else (case split_on sep cs of
              [] \<Rightarrow> [[c]]
            | p # ps \<Rightarrow> (c # p) # ps))"

text \<open>
  A character of a HOL string stands for the Python character with the same code
  point, so the strings of the model are the Python strings over code points below
  256; the digits and white space of Unicode beyond that range have no counterpart.

  White space as \<open>str.strip()\<close> sees it (\<open>str.isspace\<close>): \<open>\t \n \v \f \r\<close>, the
  four separators \<open>0x1c .. 0x1f\<close>, the blank, and \<open>U+0085\<close> and \<open>U+00A0\<close>.
\<close>

definition is_space :: "char \<Rightarrow> bool" where
  "is_space c =
     (let n = (of_char c :: nat)
      in (9 \<le> n \<and> n \<le> 13) \<or> (28 \<le> n \<and> n \<le> 31) \<or> n = 32 \<or> n = 133 \<or> n = 160)"

definition strip :: "string \<Rightarrow> string" where
  "strip s = rev (dropWhile is_space (rev (dropWhile is_space s)))"

text \<open>
  White space as \<open>int()\<close> skips it around the literal. The interpreter first turns
  the white space above code point 126 into blanks and leaves every character below
  127 alone, then skips \<open>\t \n \v \f \r\<close> and blanks: so \<open>U+0085\<close> and \<open>U+00A0\<close> are
  skipped and \<open>0x1c .. 0x1f\<close> are not.
\<close>

definition is_int_space :: "char \<Rightarrow> bool" where
  "is_int_space c =
     (let n = (of_char c :: nat)
      in (9 \<le> n \<and> n \<le> 13) \<or> n = 32 \<or> n = 133 \<or> n = 160)"

definition digit_of :: "char \<Rightarrow> nat option" where
  "digit_of c =
     (let n = (of_char c :: nat) in if 48 \<le> n \<and> n \<le> 57 then Some (n - 48) else None)"

text \<open>
  The digits of a literal, where a single underscore may stand between two digits.
\<close>

fun py_digits :: "nat \<Rightarrow> string \<Rightarrow> nat option" where
  "py_digits acc [] = Some acc"
| "py_digits acc (c # cs) =
     (if c = CHR ''_'' then
        (case cs of
           [] \<Rightarrow> None
         | d # ds \<Rightarrow>
             (case digit_of d of None \<Rightarrow> None | Some v \<Rightarrow> py_digits (10 * acc + v) ds))
      else (case digit_of c of None \<Rightarrow> None | Some v \<Rightarrow> py_digits (10 * acc + v) cs))"

text \<open>
  The interpreter refuses a literal of more than \<open>max_str_digits\<close> digits (underscores
  not counted); 4300 is the default of CPython 3.11 and later.
\<close>

definition max_str_digits :: nat where
  "max_str_digits = 4300"

definition py_nat :: "string \<Rightarrow> nat option" where
  "py_nat s =
     (if length (filter (\<lambda>c. digit_of c \<noteq> None) s) > max_str_digits then None
      else
        (case s of
           [] \<Rightarrow> None
         | c # cs \<Rightarrow> (case digit_of c of None \<Rightarrow> None | Some v \<Rightarrow> py_digits v cs)))"

text \<open>
  \<open>int(s)\<close> on a string, in base ten: white space around the literal is skipped, then
  comes an optional sign, then the digits. Anything else is a \<open>ValueError\<close>.
\<close>

definition python_int :: "string \<Rightarrow> error + int" where
  "python_int s =
     (let t = rev (dropWhile is_int_space (rev (dropWhile is_int_space s)));
          r = (case t of
                 [] \<Rightarrow> None
               | c # cs \<Rightarrow>
                   if c = CHR ''+'' then map_option int (py_nat cs)
                   else if c = CHR ''-'' then map_option (\<lambda>n. - int n) (py_nat cs)
                   else map_option int (py_nat t))
      in case r of None \<Rightarrow> Inl ValueError | Some v \<Rightarrow> Inr v)"

subsection \<open>Operating hours\<close>

text \<open>
  Line 259, \<open>start_hour, end_hour = map(int, operating_hours_str.split('-'))\<close>: the
  unpacking raises \<open>ValueError\<close> unless the split has exactly two parts, and \<open>int\<close>
  raises on a part that it does not accept. The builtin \<open>int\<close> is the parameter
  \<open>to_int\<close>; the loop passes \<open>python_int\<close> for it.
\<close>

definition unpack_hours :: "(string \<Rightarrow> error + int) \<Rightarrow> string \<Rightarrow> error + (int \<times> int)" where
  "unpack_hours to_int operating_hours_str =
     (case split_on CHR ''-'' operating_hours_str of
        [a, b] \<Rightarrow>
          (case to_int a of
             Inl e \<Rightarrow> Inl e
           | Inr start_hour \<Rightarrow>
               (case to_int b of
                  Inl e \<Rightarrow> Inl e
                | Inr end_hour \<Rightarrow> Inr (start_hour, end_hour)))
      | _ \<Rightarrow> Inl ValueError)"

text \<open>
  \<open>is_within_operating_hours\<close>; \<open>now_hour\<close> is \<open>get_current_time().hour\<close>. The bare
  \<open>except\<close> turns every exception of the \<open>try\<close> block into the answer \<open>True\<close>.
\<close>

definition is_within_operating_hours ::
  "(string \<Rightarrow> error + int) \<Rightarrow> string \<Rightarrow> int \<Rightarrow> bool"
where
  "is_within_operating_hours to_int operating_hours_str now_hour =
     (case unpack_hours to_int operating_hours_str of
        Inl _ \<Rightarrow> True
      | Inr (start_hour, end_hour) \<Rightarrow>
          if start_hour \<le> end_hour then start_hour \<le> now_hour \<and> now_hour < end_hour
          else now_hour \<ge> start_hour \<or> now_hour < end_hour)"

subsection \<open>The text raster cache\<close>

text \<open>
  A font object of the imaging library: \<open>getname()\<close> returns the family and the style
  of the font file; the point size is a separate attribute. The rasteriser itself
  (\<open>font.getbbox\<close>, \<open>Image.new\<close>, \<open>ImageDraw.text\<close>) is a parameter \<open>raster\<close> giving the
  width, the height and the bitmap of a text in a font.
\<close>

record font =
  family :: string
  style :: string
  point_size :: nat

definition getname :: "font \<Rightarrow> string list" where
  "getname f = [family f, style f]"

record 'b raster_entry =
  bitmap :: 'b
  txt_width :: int
  txt_height :: int

type_synonym 'b raster_cache = "string \<rightharpoonup> 'b raster_entry"

type_synonym 'b rasteriser = "string \<Rightarrow> font \<Rightarrow> int \<times> int \<times> 'b"

text \<open>
  \<open>cachedBitmapText\<close>, lines 116 to 130. The global dictionary \<open>bitmapRenderCache\<close> is
  passed in and returned. The key is the text followed by the joined font name.
\<close>

definition cachedBitmapText ::
  "'b rasteriser \<Rightarrow> 'b raster_cache \<Rightarrow> string \<Rightarrow> font \<Rightarrow> (int \<times> int \<times> 'b) \<times> 'b raster_cache"
where
  "cachedBitmapText raster bitmapRenderCache text fnt =
     (let nameTuple = getname fnt;
          fontKey = concat nameTuple;
          key = text @ fontKey
      in case bitmapRenderCache key of
           Some pre \<Rightarrow> ((txt_width pre, txt_height pre, bitmap pre), bitmapRenderCache)
         | None \<Rightarrow>
             (case raster text fnt of
                (w, h, bmp) \<Rightarrow>
                  ((w, h, bmp),
                   bitmapRenderCache(key \<mapsto> \<lparr>bitmap = bmp, txt_width = w, txt_height = h\<rparr>))))"

text \<open>
  The fonts of lines 149 and 151: the same font file, \<open>Dot Matrix Bold.ttf\<close>, loaded at
  10 and at 16 points, so both objects report the same name. A rasteriser for
  examples: every glyph is as wide and as high as the point size, and the bitmap is
  stood for by the text and the size.
\<close>

definition font_medium :: font where
  "font_medium = \<lparr>family = ''Dot Matrix'', style = ''Bold'', point_size = 10\<rparr>"

definition font_large :: font where
  "font_large = \<lparr>family = ''Dot Matrix'', style = ''Bold'', point_size = 16\<rparr>"

definition box_raster :: "(string \<times> nat) rasteriser" where
  "box_raster text fnt =
     (int (length text * point_size fnt), int (point_size fnt), (text, point_size fnt))"

subsection \<open>The layout fitter\<close>

text \<open>
  What \<open>get_display_date_str\<close> reads of the \<open>datetime\<close> it is given: the day of the
  month and the three \<open>strftime\<close> strings.
\<close>

record date_time =
  day :: nat
  month_name :: string
  year_str :: string
  full_day_name :: string

record icon =
  width :: int
  height :: int

definition DAY_ABBREVIATIONS :: "string \<rightharpoonup> string" where
  "DAY_ABBREVIATIONS =
     [''Monday'' \<mapsto> ''Mon'', ''Tuesday'' \<mapsto> ''Tues'', ''Wednesday'' \<mapsto> ''Weds'',
      ''Thursday'' \<mapsto> ''Thur'', ''Friday'' \<mapsto> ''Fri'', ''Saturday'' \<mapsto> ''Sat'',
      ''Sunday'' \<mapsto> ''Sun'']"

definition get_ordinal_suffix :: "nat \<Rightarrow> string" where
  "get_ordinal_suffix d =
     (if 11 \<le> d \<and> d \<le> 13 then ''th''
      else (case [1 \<mapsto> ''st'', 2 \<mapsto> ''nd'', 3 \<mapsto> ''rd''] (d mod 10) of
              Some s \<Rightarrow> s
            | None \<Rightarrow> ''th''))"

text \<open>The decimal digits of a natural number, as an f-string prints it.\<close>

fun str_nat :: "nat \<Rightarrow> string" where
  "str_nat n =
     (if n < 10 then [char_of (48 + n)]
      else str_nat (n div 10) @ [char_of (48 + n mod 10)])"

definition date_formats :: "date_time \<Rightarrow> string list" where
  "date_formats now =
     (let suffix = get_ordinal_suffix (day now);
          short_day_name = (case DAY_ABBREVIATIONS (full_day_name now) of
                              Some s \<Rightarrow> s
                            | None \<Rightarrow> ''----'')
      in [full_day_name now @ '', '' @ str_nat (day now) @ suffix @ '' '' @ month_name now
            @ '' '' @ year_str now,
          full_day_name now @ '', '' @ str_nat (day now) @ suffix @ '' '' @ month_name now,
          short_day_name @ '', '' @ str_nat (day now) @ suffix @ '' '' @ month_name now])"

text \<open>
  The geometry the fitter works against: the display width, the width reserved for the
  clock (\<open>MAX_CLOCK_WIDTH\<close>), the font of the header and the umbrella icon, which is
  \<open>None\<close> when its file could not be loaded.
\<close>

record layout =
  device_width :: int
  MAX_CLOCK_WIDTH :: int
  font_medium_tall :: font
  umbrella_icon :: "icon option"

text \<open>
  Line 407: \<open>(umbrella_icon.width + 10) if is_umbrella_visible else 0\<close>. Reading
  \<open>.width\<close> of \<open>None\<close> raises \<open>AttributeError\<close>.
\<close>

definition icon_space_needed :: "layout \<Rightarrow> bool \<Rightarrow> error + int" where
  "icon_space_needed lay is_umbrella_visible =
     (if is_umbrella_visible then
        (case umbrella_icon lay of
           None \<Rightarrow> Inl AttributeError
         | Some ic \<Rightarrow> Inr (width ic + 10))
      else Inr 0)"

text \<open>
  The loop of lines 403 to 410 over the candidates still to be tried; \<open>final_date_str\<close>
  is the value the variable holds on entry and keeps when no candidate is accepted.
\<close>

fun fit_loop ::
  "'b rasteriser \<Rightarrow> layout \<Rightarrow> bool \<Rightarrow> string \<Rightarrow> string list \<Rightarrow> 'b raster_cache
     \<Rightarrow> error + (string \<times> 'b raster_cache)"
where
  "fit_loop raster lay is_umbrella_visible final_date_str [] cache =
     Inr (final_date_str, cache)"
| "fit_loop raster lay is_umbrella_visible final_date_str (date_format # rest) cache =
     (case cachedBitmapText raster cache date_format (font_medium_tall lay) of
        ((date_width, _, _), cache') \<Rightarrow>
          (let date_start_x = device_width lay - date_width;
               available_gap = date_start_x - MAX_CLOCK_WIDTH lay
           in case icon_space_needed lay is_umbrella_visible of
                Inl e \<Rightarrow> Inl e
              | Inr needed \<Rightarrow>
                  if available_gap \<ge> needed then Inr (date_format, cache')
                  else fit_loop raster lay is_umbrella_visible final_date_str rest cache'))"

text \<open>
  Lines 401 to 412 for any list of candidates: \<open>date_formats[-1]\<close> raises \<open>IndexError\<close>
  on an empty list, otherwise the loop runs with the last candidate as the fallback.
\<close>

definition select_fit ::
  "'b rasteriser \<Rightarrow> layout \<Rightarrow> bool \<Rightarrow> string list \<Rightarrow> 'b raster_cache
     \<Rightarrow> error + (string \<times> 'b raster_cache)"
where
  "select_fit raster lay is_umbrella_visible candidates cache =
     (if candidates = [] then Inl IndexError
      else fit_loop raster lay is_umbrella_visible (last candidates) candidates cache)"

definition get_display_date_str ::
  "'b rasteriser \<Rightarrow> layout \<Rightarrow> 'b raster_cache \<Rightarrow> date_time \<Rightarrow> bool
     \<Rightarrow> error + (string \<times> 'b raster_cache)"
where
  "get_display_date_str raster lay cache now is_umbrella_visible =
     select_fit raster lay is_umbrella_visible (date_formats now) cache"

text \<open>
  The width \<open>cachedBitmapText\<close> reports for a text in the header font, and the test of
  line 408 on it.
\<close>

definition measured_width :: "'b rasteriser \<Rightarrow> layout \<Rightarrow> 'b raster_cache \<Rightarrow> string \<Rightarrow> int" where
  "measured_width raster lay cache text =
     fst (fst (cachedBitmapText raster cache text (font_medium_tall lay)))"

definition fits :: "'b rasteriser \<Rightarrow> layout \<Rightarrow> 'b raster_cache \<Rightarrow> int \<Rightarrow> string \<Rightarrow> bool" where
  "fits raster lay cache extraReservedWidth text =
     ((device_width lay - measured_width raster lay cache text) - MAX_CLOCK_WIDTH lay
        \<ge> extraReservedWidth)"

subsection \<open>State, configuration, inputs and effects of the frame loop\<close>

text \<open>
  \<open>transition_state\<close> is \<open>None\<close>, \<open>'out'\<close> or \<open>'in'\<close>. A parsed JSON object is kept
  as its list of members, so that Python's truth test (\<open>if weather_data:\<close>) can tell the
  empty object. A pre-rendered background is stood for by the view it belongs to and
  the data it was rendered from.
\<close>

datatype tstate = Idle | Out | In

type_synonym json = "(string \<times> string) list"

datatype image = WeatherBg json | ForecastBg json

datatype request = WeatherRequest | ForecastRequest | TipRequest

text \<open>
  The configuration dictionary of \<open>config.py\<close>, restricted to the keys the frame loop
  reads, and the size of the display device.
\<close>

record config =
  API_KEY :: string
  UPDATE_INTERVAL_SECONDS :: int
  FORCE_REFRESH_ON_START :: bool
  OPERATING_HOURS :: string
  DISPLAY_DURATION :: int
  SCROLL_PAUSE_SECONDS :: int
  SCROLL_OFF_SCREEN_WAIT_SECONDS :: int
  TRANSITION_DURATION_SECONDS :: real
  TRANSITION_EFFECT :: string
  device_size :: "int \<times> int"

text \<open>
  The module globals that the loop of \<open>main\<close> reads and writes, followed by the locals
  of \<open>main\<close>. The raster cache, the animation viewport and the cached date string
  belong to the drawing of the header and are not tracked here.
\<close>

record app_state =
  last_update_time :: real
  weather_data_cache :: "json option"
  forecast_data_cache :: "json option"
  current_weather_bg :: "image option"
  forecast_bg :: "image option"
  ai_tip_cache :: string
  pixelsUp :: int
  hasElevated :: int
  scroll_x :: int
  animation_pause_timer :: real
  scroll_completion_event_fired :: bool
  transition_state :: tstate
  transition_start_time :: real
  is_showing_forecast :: bool
  scroll_off_event_time :: real
  last_view_switch_time :: real
  log_timer :: real
  is_active :: "bool option"

text \<open>
  Everything one pass of the loop reads from outside. Each call of \<open>time.time()\<close> is
  a field of its own, named after its line, since two reads in one pass need not agree;
  \<open>now_ts\<close> and \<open>weather_ts\<close> are the two calls of \<open>get_current_timestamp()\<close>, in
  line 525 and in \<open>get_weather\<close>. A reply is \<open>None\<close> when
  \<open>_make_request_with_retries\<close> gave up, and otherwise the parsed body; the reply to the
  tip request carries the \<open>answer\<close> member if the body has one. \<open>tip_size\<close> is the
  width and height \<open>cachedBitmapText\<close> reports for the tip in that pass, and
  \<open>clock_hour\<close> the hour of \<open>get_current_time()\<close>.
\<close>

record tick_env =
  clock_hour :: int
  now_ts :: real
  weather_response :: "json option"
  weather_ts :: real
  forecast_response :: "json option"
  tip_response :: "string option option"
  tip_size :: "int \<times> int"
  t546 :: real
  t547a :: real
  t547b :: real
  t549 :: real
  t550 :: real
  t551 :: real
  t555 :: real
  t562 :: real
  t468 :: real
  t470 :: real
  t602 :: real
  t604 :: real

text \<open>
  A drawn frame: the background handed to \<open>draw_frame_content\<close>, where the tip bitmap
  is pasted into its viewport (if there is a tip), and the black rectangles of the
  transition effect drawn on top.
\<close>

record frame =
  background :: "image option"
  tip_paste :: "(int \<times> int) option"
  overlay :: "((int \<times> int) \<times> (int \<times> int)) list"

text \<open>
  What the program does to the outside, in order. \<open>RenderBackground\<close> is a call of
  \<open>render_current_weather_bg\<close> or \<open>render_forecast_bg\<close>, which download icons.
  \<open>Transition a b\<close> is not an output of the program: it records an assignment to
  \<open>transition_state\<close>, with the value before and the value after.
\<close>

datatype effect =
    Request request
  | SaveWeatherCache real json "string option"
  | SaveForecastCache json
  | RenderBackground image
  | Draw frame
  | DrawText string "int \<times> int"
  | Sleep real
  | Print string
  | Transition tstate tstate

fun is_network :: "effect \<Rightarrow> bool" where
  "is_network (Request _) = True"
| "is_network (RenderBackground _) = True"
| "is_network _ = False"

subsection \<open>The refresh scheduler\<close>

text \<open>\<open>needle in hay\<close> on strings.\<close>

fun starts_with :: "string \<Rightarrow> string \<Rightarrow> bool" where
  "starts_with s [] = True"
| "starts_with [] (p # ps) = False"
| "starts_with (c # cs) (p # ps) = (c = p \<and> starts_with cs ps)"

fun contains :: "string \<Rightarrow> string \<Rightarrow> bool" where
  "contains [] needle = (needle = [])"
| "contains (c # cs) needle = (starts_with (c # cs) needle \<or> contains cs needle)"

definition truthy :: "json option \<Rightarrow> bool" where
  "truthy d = (case d of None \<Rightarrow> False | Some members \<Rightarrow> members \<noteq> [])"

text \<open>
  \<open>get_weather\<close> and \<open>get_forecast\<close>, given the reply to their request. A reply to
  the weather request moves \<open>last_update_time\<close>.
\<close>

definition get_weather :: "tick_env \<Rightarrow> app_state \<Rightarrow> json option \<times> app_state" where
  "get_weather env st =
     (case weather_response env of
        Some body \<Rightarrow> (Some body, st\<lparr>last_update_time := weather_ts env\<rparr>)
      | None \<Rightarrow> (None, st))"

definition get_forecast :: "tick_env \<Rightarrow> json option" where
  "get_forecast env = forecast_response env"

definition tip_unavailable :: string where
  "tip_unavailable = ''Weather tip currently unavailable.''"

text \<open>\<open>get_ai_weather_tip\<close>: no request is made without a key.\<close>

definition get_ai_weather_tip :: "config \<Rightarrow> tick_env \<Rightarrow> string \<times> effect list" where
  "get_ai_weather_tip cfg env =
     (if API_KEY cfg = [] \<or> API_KEY cfg = ''key_not_set'' then (tip_unavailable, [])
      else
        ((case tip_response env of
            Some (Some answer) \<Rightarrow> strip answer
          | _ \<Rightarrow> tip_unavailable),
         [Request TipRequest]))"

text \<open>Lines 528 to 538: the body of \<open>if weather_data:\<close>.\<close>

definition store_weather :: "config \<Rightarrow> tick_env \<Rightarrow> json \<Rightarrow> app_state \<Rightarrow> app_state \<times> effect list" where
  "store_weather cfg env weather_data st =
     (let st1 = st\<lparr>weather_data_cache := Some weather_data\<rparr>;
          (new_tip, tip_effects) = get_ai_weather_tip cfg env;
          st2 = (if new_tip \<noteq> [] \<and> new_tip \<noteq> ai_tip_cache st1
                    \<and> \<not> contains new_tip ''unavailable''
                 then st1\<lparr>ai_tip_cache := new_tip, pixelsUp := 0, hasElevated := 0,
                          scroll_x := 0, scroll_completion_event_fired := False\<rparr>
                 else st1);
          saved_tip = (if \<not> contains (ai_tip_cache st2) ''unavailable''
                          \<and> \<not> contains (ai_tip_cache st2) ''Fetching''
                       then Some (ai_tip_cache st2) else None)
      in (st2\<lparr>current_weather_bg := Some (WeatherBg weather_data)\<rparr>,
          tip_effects
            @ [SaveWeatherCache (last_update_time st2) weather_data saved_tip,
               RenderBackground (WeatherBg weather_data)]))"

text \<open>
  Lines 541 to 543: the body of \<open>if forecast_data:\<close>. The two renderers are kept
  symbolic, as the image they return. An exception raised inside a renderer (line 313
  raises \<open>KeyError\<close> on a forecast body without a \<open>list\<close> member) is not modelled:
  it would end the program after the requests, the tip and the cache writes of the pass.
\<close>

definition store_forecast :: "json \<Rightarrow> app_state \<Rightarrow> app_state \<times> effect list" where
  "store_forecast forecast_data st =
     (st\<lparr>forecast_data_cache := Some forecast_data,
         forecast_bg := Some (ForecastBg forecast_data)\<rparr>,
      [SaveForecastCache forecast_data, RenderBackground (ForecastBg forecast_data)])"

text \<open>The staleness test of line 525.\<close>

definition refresh_due :: "config \<Rightarrow> tick_env \<Rightarrow> app_state \<Rightarrow> bool" where
  "refresh_due cfg env st =
     (now_ts env - last_update_time st > real_of_int (UPDATE_INTERVAL_SECONDS cfg))"

text \<open>Lines 525 to 543.\<close>

definition refresh_step :: "config \<Rightarrow> tick_env \<Rightarrow> app_state \<Rightarrow> app_state \<times> effect list" where
  "refresh_step cfg env st =
     (if refresh_due cfg env st then
        (case get_weather env st of
           (weather_data, st1) \<Rightarrow>
             (let forecast_data = get_forecast env;
                  (st2, effects2) = (if truthy weather_data
                                     then store_weather cfg env (the weather_data) st1
                                     else (st1, []));
                  (st3, effects3) = (if truthy forecast_data
                                     then store_forecast (the forecast_data) st2
                                     else (st2, []))
              in (st3, [Request WeatherRequest, Request ForecastRequest] @ effects2 @ effects3)))
      else (st, []))"

subsection \<open>The view transition controller\<close>

text \<open>
  Lines 545 to 552: entry into the out phase, after a fixed display duration or, with
  duration 0, once the marquee has scrolled off and the wait has passed.
\<close>

definition entry_step :: "config \<Rightarrow> tick_env \<Rightarrow> app_state \<Rightarrow> app_state \<times> effect list" where
  "entry_step cfg env st =
     (let duration = DISPLAY_DURATION cfg in
      if duration > 0 \<and> t546 env - last_view_switch_time st > real_of_int duration
           \<and> transition_state st = Idle
      then (st\<lparr>transition_state := Out, transition_start_time := t547a env,
                last_view_switch_time := t547b env\<rparr>,
            [Transition (transition_state st) Out])
      else if duration = 0 then
        (let st1 = (if scroll_completion_event_fired st \<and> scroll_off_event_time st = 0
                    then st\<lparr>scroll_off_event_time := t549 env\<rparr> else st)
         in if scroll_off_event_time st1 \<noteq> 0
                 \<and> t550 env - scroll_off_event_time st1
                      > real_of_int (SCROLL_OFF_SCREEN_WAIT_SECONDS cfg)
                 \<and> transition_state st1 = Idle
            then (st1\<lparr>transition_state := Out, transition_start_time := t551 env,
                       scroll_off_event_time := 0, scroll_completion_event_fired := False\<rparr>,
                  [Transition (transition_state st1) Out])
            else (st1, []))
      else (st, []))"

text \<open>
  Lines 464 to 472 of \<open>draw_frame_content\<close>: the marquee rises one pixel per frame,
  pauses, then scrolls left one pixel per frame until it has left its viewport.
\<close>

definition advance_marquee :: "config \<Rightarrow> tick_env \<Rightarrow> int \<Rightarrow> int \<Rightarrow> app_state \<Rightarrow> app_state" where
  "advance_marquee cfg env tip_width tip_height st =
     (let st1 = (if pixelsUp st < tip_height then st\<lparr>pixelsUp := pixelsUp st + 1\<rparr>
                 else if hasElevated st = 0
                 then st\<lparr>hasElevated := 1, animation_pause_timer := t468 env\<rparr>
                 else st)
      in if hasElevated st1 \<noteq> 0
              \<and> t470 env - animation_pause_timer st1 > real_of_int (SCROLL_PAUSE_SECONDS cfg)
              \<and> \<not> scroll_completion_event_fired st1
         then (let st2 = st1\<lparr>scroll_x := scroll_x st1 + 1\<rparr>
               in if scroll_x st2 > tip_width
                  then st2\<lparr>scroll_completion_event_fired := True\<rparr> else st2)
         else st1)"

text \<open>
  \<open>draw_frame_content\<close>, as far as the tracked state goes: the background is drawn
  as given and the marquee moves unless a transition is running. The header (clock,
  date or title, umbrella icon) is drawn from the clock and the raster cache alone and
  is left out of the frame.
\<close>

definition draw_frame_content ::
  "config \<Rightarrow> tick_env \<Rightarrow> image option \<Rightarrow> bool \<Rightarrow> app_state \<Rightarrow> app_state \<times> frame"
where
  "draw_frame_content cfg env bg is_transitioning st =
     (if ai_tip_cache st \<noteq> [] then
        (case tip_size env of
           (tip_width, tip_height) \<Rightarrow>
             (let st1 = (if \<not> is_transitioning
                         then advance_marquee cfg env tip_width tip_height st else st)
              in (st1, \<lparr>background = bg,
                        tip_paste = Some (- scroll_x st1, tip_height - pixelsUp st1),
                        overlay = []\<rparr>)))
      else (st, \<lparr>background = bg, tip_paste = None, overlay = []\<rparr>))"

text \<open>\<open>int(x)\<close> on a float: truncation towards zero.\<close>

definition py_trunc :: "real \<Rightarrow> int" where
  "py_trunc x = (if x \<ge> 0 then \<lfloor>x\<rfloor> else \<lceil>x\<rceil>)"

text \<open>Lines 584 to 598: the rectangles of the effect, for a progress in the phase.\<close>

definition effect_overlay ::
  "config \<Rightarrow> bool \<Rightarrow> real \<Rightarrow> ((int \<times> int) \<times> (int \<times> int)) list"
where
  "effect_overlay cfg is_out progress =
     (case device_size cfg of
        (dev_width, dev_height) \<Rightarrow>
          (let center_x = dev_width div 2; center_y = dev_height div 2 in
           if TRANSITION_EFFECT cfg = ''wipe'' then
             (if is_out then
                (let curtain_width = py_trunc (real_of_int dev_width * progress)
                 in [((dev_width - curtain_width, 0), (dev_width, dev_height))])
              else
                (let curtain_x = py_trunc (real_of_int dev_width * progress)
                 in [((curtain_x, 0), (dev_width, dev_height))]))
           else if TRANSITION_EFFECT cfg = ''blink'' then
             (let p = (if is_out then 1 - progress else progress);
                  w = py_trunc (real_of_int center_x * p);
                  h = py_trunc (real_of_int center_y * p)
              in [((0, 0), (dev_width, center_y - h)),
                  ((0, center_y + h), (dev_width, dev_height)),
                  ((0, center_y - h), (center_x - w, center_y + h)),
                  ((center_x + w, center_y - h), (dev_width, center_y + h))])
           else []))"

text \<open>Line 575 and line 578, the same expression in both branches, and line 600.\<close>

definition view_bg :: "app_state \<Rightarrow> image option" where
  "view_bg st = (if is_showing_forecast st then forecast_bg st else current_weather_bg st)"

text \<open>
  Lines 554 to 600. While a transition runs, either its phase ends (no frame is drawn
  in that pass) or a transition frame is drawn; the division of line 567 raises
  \<open>ZeroDivisionError\<close> on a zero duration. Without a transition a normal frame is
  drawn.
\<close>

definition phase_step ::
  "config \<Rightarrow> tick_env \<Rightarrow> app_state \<Rightarrow> error + (app_state \<times> effect list)"
where
  "phase_step cfg env st =
     (if transition_state st \<noteq> Idle then
        (let elapsed = t555 env - transition_start_time st;
             duration = TRANSITION_DURATION_SECONDS cfg
         in if elapsed \<ge> duration then
              (if transition_state st = Out then
                 (let new_state = (if TRANSITION_EFFECT cfg \<in> set [''wipe'', ''blink'']
                                   then In else Idle)
                  in Inr (st\<lparr>is_showing_forecast := \<not> is_showing_forecast st,
                              pixelsUp := 0, hasElevated := 0, scroll_x := 0,
                              scroll_completion_event_fired := False,
                              transition_state := new_state,
                              transition_start_time := t562 env\<rparr>,
                          [Transition (transition_state st) new_state]))
               else Inr (st\<lparr>transition_state := Idle\<rparr>,
                         [Transition (transition_state st) Idle]))
            else if duration = 0 then Inl ZeroDivisionError
            else
              (let progress = elapsed / duration;
                   is_out = (transition_state st = Out);
                   bg_to_draw = (if is_out then view_bg st else view_bg st)
               in case draw_frame_content cfg env bg_to_draw True st of
                    (st1, fr) \<Rightarrow>
                      Inr (st1, [Draw (fr\<lparr>overlay := effect_overlay cfg is_out progress\<rparr>)])))
      else
        (case draw_frame_content cfg env (view_bg st) False st of
           (st1, fr) \<Rightarrow> Inr (st1, [Draw fr])))"

text \<open>
  Lines 602 to 604: the frame rate is printed every thirty seconds (the printed number
  is left out).
\<close>

definition log_step :: "tick_env \<Rightarrow> app_state \<Rightarrow> app_state \<times> effect list" where
  "log_step env st =
     (if t602 env - log_timer st > 30
      then (st\<lparr>log_timer := t604 env\<rparr>, [Print ''Framerate''])
      else (st, []))"

subsection \<open>The frame loop\<close>

text \<open>Lines 524 to 604: one pass under the frame-rate regulator.\<close>

definition tick :: "config \<Rightarrow> tick_env \<Rightarrow> app_state \<Rightarrow> error + (app_state \<times> effect list)" where
  "tick cfg env st =
     (case refresh_step cfg env st of
        (st1, effects1) \<Rightarrow>
          (case entry_step cfg env st1 of
             (st2, effects2) \<Rightarrow>
               (case phase_step cfg env st2 of
                  Inl e \<Rightarrow> Inl e
                | Inr (st3, effects3) \<Rightarrow>
                    (case log_step env st3 of
                       (st4, effects4) \<Rightarrow>
                         Inr (st4, effects1 @ effects2 @ effects3 @ effects4)))))"

text \<open>
  Lines 516 to 604: one iteration of \<open>while True\<close>, with the operating-hours gate in
  front of the pass.
\<close>

definition loop_iteration ::
  "config \<Rightarrow> tick_env \<Rightarrow> app_state \<Rightarrow> error + (app_state \<times> effect list)"
where
  "loop_iteration cfg env st =
     (let should_be_active = is_within_operating_hours python_int (OPERATING_HOURS cfg) (clock_hour env);
          st1 = (if Some should_be_active \<noteq> is_active st
                 then st\<lparr>is_active := Some should_be_active\<rparr> else st)
      in if is_active st1 \<noteq> Some True then Inr (st1, [Sleep 60])
         else tick cfg env st1)"

text \<open>Iterations of the loop over a list of inputs, stopping at an exception.\<close>

fun run :: "config \<Rightarrow> tick_env list \<Rightarrow> app_state \<Rightarrow> error + (app_state \<times> effect list)" where
  "run cfg [] st = Inr (st, [])"
| "run cfg (env # envs) st =
     (case loop_iteration cfg env st of
        Inl e \<Rightarrow> Inl e
      | Inr (st1, effects1) \<Rightarrow>
          (case run cfg envs st1 of
             Inl e \<Rightarrow> Inl e
           | Inr (st2, effects2) \<Rightarrow> Inr (st2, effects1 @ effects2)))"

text \<open>
  What \<open>main\<close> reads before the loop: the two cache files (\<open>None\<close> when missing,
  unreadable or empty, which is when \<open>if cached_info:\<close> fails) and the clock. A weather
  cache file holds the data, the timestamp and perhaps the tip.
\<close>

record cached_info =
  data :: "json option"
  timestamp :: "real option"
  ai_tip :: "string option"

record startup_env =
  weather_cache_file :: "cached_info option"
  forecast_cache_file :: "json option"
  t511 :: real
  t512 :: real

text \<open>The module globals as lines 66 to 87 initialise them; the locals are set in \<open>startup\<close>.\<close>

definition initial_globals :: app_state where
  "initial_globals =
     \<lparr>last_update_time = 0, weather_data_cache = None, forecast_data_cache = None,
      current_weather_bg = None, forecast_bg = None,
      ai_tip_cache = ''Fetching weather tip...'',
      pixelsUp = 0, hasElevated = 0, scroll_x = 0, animation_pause_timer = 0,
      scroll_completion_event_fired = False, transition_state = Idle,
      transition_start_time = 0, is_showing_forecast = False, scroll_off_event_time = 0,
      last_view_switch_time = 0, log_timer = 0, is_active = None\<rparr>"

text \<open>Lines 498 to 513.\<close>

definition startup :: "config \<Rightarrow> startup_env \<Rightarrow> app_state \<times> effect list" where
  "startup cfg senv =
     (let st0 = initial_globals;
          st1 = (case weather_cache_file senv of
                   Some info \<Rightarrow>
                     st0\<lparr>weather_data_cache := data info,
                         last_update_time := (case timestamp info of Some t \<Rightarrow> t | None \<Rightarrow> 0),
                         ai_tip_cache := (case ai_tip info of
                                            Some t \<Rightarrow> t
                                          | None \<Rightarrow> ''Weather tip unavailable.'')\<rparr>
                 | None \<Rightarrow> st0);
          st2 = (if FORCE_REFRESH_ON_START cfg \<or> weather_cache_file senv = None
                 then st1\<lparr>last_update_time := 0\<rparr> else st1);
          st3 = st2\<lparr>forecast_data_cache := forecast_cache_file senv\<rparr>;
          (st4, effects4) = (if truthy (weather_data_cache st3)
                             then (st3\<lparr>current_weather_bg :=
                                         Some (WeatherBg (the (weather_data_cache st3)))\<rparr>,
                                   [RenderBackground (WeatherBg (the (weather_data_cache st3)))])
                             else (st3, []));
          (st5, effects5) = (if truthy (forecast_data_cache st4)
                             then (st4\<lparr>forecast_bg :=
                                         Some (ForecastBg (the (forecast_data_cache st4)))\<rparr>,
                                   [RenderBackground (ForecastBg (the (forecast_data_cache st4)))])
                             else (st4, []))
      in (st5\<lparr>log_timer := t511 senv, is_showing_forecast := False,
              scroll_off_event_time := 0, last_view_switch_time := t512 senv,
              is_active := None\<rparr>,
          effects4 @ effects5))"

text \<open>
  \<open>main\<close> either returns or is ended by an exception. The loop has no exit of its own,
  so it is run on fuel: \<open>None\<close> says that the loop was still running when the fuel
  was used up.
\<close>

datatype outcome = Returned "effect list" | Raised error

fun main_loop :: "nat \<Rightarrow> config \<Rightarrow> (nat \<Rightarrow> tick_env) \<Rightarrow> nat \<Rightarrow> app_state \<Rightarrow> outcome option" where
  "main_loop 0 cfg envs k st = None"
| "main_loop (Suc fuel) cfg envs k st =
     (case loop_iteration cfg (envs k) st of
        Inl e \<Rightarrow> Some (Raised e)
      | Inr (st1, _) \<Rightarrow> main_loop fuel cfg envs (Suc k) st1)"

text \<open>\<open>main\<close>, lines 485 to 604.\<close>

definition main :: "nat \<Rightarrow> config \<Rightarrow> startup_env \<Rightarrow> (nat \<Rightarrow> tick_env) \<Rightarrow> outcome option" where
  "main fuel cfg senv envs =
     (if API_KEY cfg = ''key_not_set'' \<or> API_KEY cfg = [] then
        Some (Returned [Print ''Starting weather display...'',
                        Print ''ERROR: openWeatherApiKey is not set.'',
                        DrawText ''API Key Not Set!'' (10, 20),
                        Sleep 1800])
      else main_loop fuel cfg envs 0 (fst (startup cfg senv)))"

subsection \<open>Names for the properties, and examples\<close>

text \<open>The refresh state of the specification: what the refresh scheduler owns.\<close>

definition refresh_state :: "app_state \<Rightarrow> real \<times> json option \<times> json option \<times> string" where
  "refresh_state st =
     (last_update_time st, weather_data_cache st, forecast_data_cache st, ai_tip_cache st)"

text \<open>
  A fetched tip is accepted when it is not empty, differs from the cached tip and does
  not contain the word \<open>unavailable\<close> (line 530); a tip is fetched in a pass when the
  refresh is due and the weather reply is a non-empty object.
\<close>

definition tip_accepted :: "string \<Rightarrow> string \<Rightarrow> bool" where
  "tip_accepted new_tip cached \<longleftrightarrow>
     new_tip \<noteq> [] \<and> new_tip \<noteq> cached \<and> \<not> contains new_tip ''unavailable''"

definition tip_fetched :: "config \<Rightarrow> tick_env \<Rightarrow> app_state \<Rightarrow> bool" where
  "tip_fetched cfg env st \<longleftrightarrow> refresh_due cfg env st \<and> truthy (weather_response env)"

text \<open>
  The moves of the transition state machine that the specification allows, given the
  configured effect: idle to out, out to in when the effect has an entry animation
  (\<open>wipe\<close> or \<open>blink\<close>), out to idle when it has none, in to idle.
\<close>

fun allowed_move :: "string \<Rightarrow> tstate \<Rightarrow> tstate \<Rightarrow> bool" where
  "allowed_move eff Idle Out = True"
| "allowed_move eff Out In = (eff = ''wipe'' \<or> eff = ''blink'')"
| "allowed_move eff Out Idle = (eff \<noteq> ''wipe'' \<and> eff \<noteq> ''blink'')"
| "allowed_move eff In Idle = True"
| "allowed_move eff _ _ = False"

text \<open>
  The assignments to \<open>transition_state\<close> recorded in a log, in order, and the state
  reached by following them from a given state: \<open>None\<close> if some recorded assignment
  does not start where the one before it ended.
\<close>

fun moves :: "effect list \<Rightarrow> (tstate \<times> tstate) list" where
  "moves [] = []"
| "moves (Transition a b # es) = (a, b) # moves es"
| "moves (_ # es) = moves es"

fun follows :: "tstate \<Rightarrow> (tstate \<times> tstate) list \<Rightarrow> tstate option" where
  "follows s [] = Some s"
| "follows s ((a, b) # ms) = (if a = s then follows b ms else None)"

definition legal_path :: "string \<Rightarrow> tstate \<Rightarrow> (tstate \<times> tstate) list \<Rightarrow> tstate \<Rightarrow> bool" where
  "legal_path eff s ms s' \<longleftrightarrow>
     follows s ms = Some s' \<and> list_all (\<lambda>(a, b). allowed_move eff a b) ms"

text \<open>
  The frames drawn in a log, and the number of recorded moves that leave the out phase.
\<close>

fun draws :: "effect list \<Rightarrow> frame list" where
  "draws [] = []"
| "draws (Draw fr # es) = fr # draws es"
| "draws (_ # es) = draws es"

fun out_exits :: "(tstate \<times> tstate) list \<Rightarrow> nat" where
  "out_exits [] = 0"
| "out_exits ((a, b) # ms) = (if a = Out then Suc (out_exits ms) else out_exits ms)"

text \<open>
  The out phase completes in a pass when, after the refresh and the entry step of that
  pass, the state is \<open>out\<close> and the elapsed time of line 555 has reached the transition
  duration (line 557).
\<close>

definition out_phase_completes :: "config \<Rightarrow> tick_env \<Rightarrow> app_state \<Rightarrow> bool" where
  "out_phase_completes cfg env st \<longleftrightarrow>
     (let st2 = fst (entry_step cfg env (fst (refresh_step cfg env st)))
      in transition_state st2 = Out
         \<and> t555 env - transition_start_time st2 \<ge> TRANSITION_DURATION_SECONDS cfg)"

text \<open>
  The passes of a run, one for each iteration of the loop until an exception ends it:
  the state after the pass and what the pass did.
\<close>

fun passes :: "config \<Rightarrow> tick_env list \<Rightarrow> app_state \<Rightarrow> (app_state \<times> effect list) list" where
  "passes cfg [] st = []"
| "passes cfg (env # envs) st =
     (case loop_iteration cfg env st of
        Inl e \<Rightarrow> []
      | Inr (st1, effects1) \<Rightarrow> (st1, effects1) # passes cfg envs st1)"

text \<open>
  The selector after a log, given the selector before it: it flips at every recorded
  move out of the out phase.
\<close>

fun view_after :: "bool \<Rightarrow> effect list \<Rightarrow> bool" where
  "view_after v [] = v"
| "view_after v (Transition a b # es) = view_after (if a = Out then \<not> v else v) es"
| "view_after v (_ # es) = view_after v es"

text \<open>
  The background global a selector value picks (\<open>True\<close>: the forecast), the
  expression of lines 575, 578 and 600 for a given value of the selector.
\<close>

definition selected_bg :: "bool \<Rightarrow> app_state \<Rightarrow> image option" where
  "selected_bg v st = (if v then forecast_bg st else current_weather_bg st)"

text \<open>
  Replaying the log of a pass against a selector, with the state the pass ends in: the
  selector flips at every recorded move out of the out phase, and every frame must have
  drawn exactly the background that the selector of that point of the log picks,
  \<open>None\<close> only if that view has no background. Replaying the passes of a run: each
  pass starts from the selector the pass before it ended with. So the frames between a
  move into \<open>out\<close> and the move out of it are held to the view from before the
  switch, and the frames after it to the switched one.
\<close>

fun frames_draw :: "app_state \<Rightarrow> bool \<Rightarrow> effect list \<Rightarrow> bool" where
  "frames_draw st v [] = True"
| "frames_draw st v (Transition a b # es) = frames_draw st (if a = Out then \<not> v else v) es"
| "frames_draw st v (Draw fr # es) = (background fr = selected_bg v st \<and> frames_draw st v es)"
| "frames_draw st v (_ # es) = frames_draw st v es"

fun frames_follow_switch :: "bool \<Rightarrow> (app_state \<times> effect list) list \<Rightarrow> bool" where
  "frames_follow_switch v [] = True"
| "frames_follow_switch v ((st, effs) # ps) =
     (frames_draw st v effs \<and> frames_follow_switch (view_after v effs) ps)"

text \<open>
  A configuration with the defaults of \<open>config.py\<close> and a key; inputs in which every
  clock read gives the same time and every request is answered; a state in which the
  marquee has risen and scrolled thirty pixels.
\<close>

definition example_config :: config where
  "example_config =
     \<lparr>API_KEY = ''0123456789abcdef'', UPDATE_INTERVAL_SECONDS = 1800,
      FORCE_REFRESH_ON_START = False, OPERATING_HOURS = ''8-22'', DISPLAY_DURATION = 0,
      SCROLL_PAUSE_SECONDS = 2, SCROLL_OFF_SCREEN_WAIT_SECONDS = 1,
      TRANSITION_DURATION_SECONDS = 1 / 5, TRANSITION_EFFECT = ''wipe'',
      device_size = (256, 64)\<rparr>"

definition env_at :: "real \<Rightarrow> tick_env" where
  "env_at t =
     \<lparr>clock_hour = 12, now_ts = t,
      weather_response = Some [(''name'', ''London'')], weather_ts = t,
      forecast_response = Some [(''cnt'', ''40'')],
      tip_response = Some (Some ''Mild and dry in London today.''),
      tip_size = (145, 8),
      t546 = t, t547a = t, t547b = t, t549 = t, t550 = t, t551 = t, t555 = t, t562 = t,
      t468 = t, t470 = t, t602 = t, t604 = t\<rparr>"

definition scrolled_state :: app_state where
  "scrolled_state =
     initial_globals\<lparr>ai_tip_cache := ''Cold and windy in London today.'', pixelsUp := 8,
       hasElevated := 1, scroll_x := 30\<rparr>"

text \<open>
  A state in steady display of the current weather whose marquee has scrolled off two
  seconds ago, and five passes from it, a tenth of a second or two apart: the out phase
  is entered and runs, the view switches, the in phase runs and ends. \<open>out_state\<close> is
  the state after the first of these passes.
\<close>

definition ready_state :: app_state where
  "ready_state =
     initial_globals\<lparr>last_update_time := 1000,
       weather_data_cache := Some [(''name'', ''London'')],
       forecast_data_cache := Some [(''cnt'', ''40'')],
       current_weather_bg := Some (WeatherBg [(''name'', ''London'')]),
       forecast_bg := Some (ForecastBg [(''cnt'', ''40'')]),
       ai_tip_cache := ''Cold and windy in London today.'',
       pixelsUp := 8, hasElevated := 1, scroll_x := 146,
       scroll_completion_event_fired := True, scroll_off_event_time := 1008,
       last_view_switch_time := 900, log_timer := 1000, is_active := Some True\<rparr>"

definition scenario :: "tick_env list" where
  "scenario = [env_at 1010, env_at (1010 + 1 / 10), env_at (1010 + 3 / 10),
               env_at (1010 + 4 / 10), env_at (1010 + 6 / 10)]"

definition out_state :: app_state where
  "out_state =
     ready_state\<lparr>transition_state := Out, transition_start_time := 1010,
       scroll_off_event_time := 0, scroll_completion_event_fired := False\<rparr>"

definition example_startup :: startup_env where
  "example_startup =
     \<lparr>weather_cache_file = None, forecast_cache_file = None, t511 = 1000, t512 = 1000\<rparr>"

definition example_clock :: "nat \<Rightarrow> tick_env" where
  "example_clock k = env_at (1010 + real k / 10)"

text \<open>
  A layout and a date for examples: a display 256 pixels wide, 80 of them reserved for
  the clock, and New Year's Day of 2024, a Monday.
\<close>

definition example_layout :: layout where
  "example_layout =
     \<lparr>device_width = 256, MAX_CLOCK_WIDTH = 80, font_medium_tall = font_medium,
      umbrella_icon = Some \<lparr>width = 16, height = 16\<rparr>\<rparr>"

definition new_year_2024 :: date_time where
  "new_year_2024 =
     \<lparr>day = 1, month_name = ''January'', year_str = ''2024'', full_day_name = ''Monday''\<rparr>"

section \<open>Properties\<close>

subsection \<open>Splitting\<close>

lemma split_on_nonempty: "split_on sep s \<noteq> []"
  by (induction s) (auto split: list.splits)

lemma split_on_single:
  "split_on sep s = [a] \<longleftrightarrow> s = a \<and> sep \<notin> set a"
proof (induction s arbitrary: a)
  case Nil
  then show ?case by auto
next
  case (Cons c cs)
  show ?case
  proof (cases "c = sep")
    case True
    then show ?thesis using split_on_nonempty [of sep cs] by auto
  next
    case False
    then show ?thesis using Cons [of "tl a"] split_on_nonempty [of sep cs]
      by (cases a) (auto split: list.splits)
  qed
qed

lemma split_on_two:
  "split_on sep s = [a, b] \<longleftrightarrow> s = a @ sep # b \<and> sep \<notin> set a \<and> sep \<notin> set b"
proof (induction s arbitrary: a)
  case Nil
  then show ?case by auto
next
  case (Cons c cs)
  show ?case
  proof (cases "c = sep")
    case True
    then show ?thesis using split_on_single [of sep cs b]
      by (cases a) auto
  next
    case False
    then show ?thesis using Cons [of "tl a"] split_on_nonempty [of sep cs]
      by (cases a) (auto split: list.splits)
  qed
qed

subsection \<open>The text raster cache\<close>

lemma cachedBitmapText_miss:
  assumes "cache (text @ concat (getname fnt)) = None"
  shows "fst (cachedBitmapText raster cache text fnt) = raster text fnt"
  using assms by (simp add: cachedBitmapText_def split: prod.splits)

lemma cachedBitmapText_hit:
  assumes "cache (text @ concat (getname fnt)) = Some pre"
  shows "cachedBitmapText raster cache text fnt
           = ((txt_width pre, txt_height pre, bitmap pre), cache)"
  using assms by (simp add: cachedBitmapText_def)

lemma cachedBitmapText_again:
  "fst (cachedBitmapText raster (snd (cachedBitmapText raster cache text fnt)) text fnt)
     = fst (cachedBitmapText raster cache text fnt)"
  by (auto simp: cachedBitmapText_def Let_def split: option.splits prod.splits)

text \<open>
  C9. The key leaves the point size out. After the text \<open>:59\<close> has been rendered
  in the 16-point font of line 151, asking for it in the 10-point font of line 149
  (same file, same name) is a hit on the 16-point entry: the call returns the large
  bitmap and its dimensions, not the rasterisation of the text in the font it was
  given.
\<close>

theorem cachedBitmapText_size_collision:
  "font_large \<noteq> font_medium
   \<and> fst (cachedBitmapText box_raster
             (snd (cachedBitmapText box_raster Map.empty '':59'' font_large)) '':59'' font_medium)
       = box_raster '':59'' font_large
   \<and> box_raster '':59'' font_large \<noteq> box_raster '':59'' font_medium"
  by (simp add: cachedBitmapText_def box_raster_def font_large_def font_medium_def getname_def)

subsection \<open>The layout fitter\<close>

text \<open>
  Measuring a text in the header font never changes what a later measurement in that
  font reports: the keys of one font differ exactly when the texts do.
\<close>

lemma measured_width_after_insert:
  "measured_width raster lay (snd (cachedBitmapText raster cache t (font_medium_tall lay))) u
     = measured_width raster lay cache u"
  by (auto simp: measured_width_def cachedBitmapText_def Let_def split: option.splits prod.splits)

lemma fits_after_insert:
  "fits raster lay (snd (cachedBitmapText raster cache t (font_medium_tall lay))) extra
     = fits raster lay cache extra"
  by (rule ext) (simp add: fits_def measured_width_after_insert)

lemma fit_loop_first_fit:
  assumes "icon_space_needed lay vis = Inr extra"
  shows "\<exists>cache'. fit_loop raster lay vis final cands cache =
            Inr ((case find (fits raster lay cache extra) cands of Some c \<Rightarrow> c | None \<Rightarrow> final), cache')"
proof (induction cands arbitrary: cache)
  case Nil
  show ?case by simp
next
  case (Cons c cs)
  obtain w h b cache1 where r: "cachedBitmapText raster cache c (font_medium_tall lay) = ((w, h, b), cache1)"
    by (metis prod_cases3 surj_pair)
  have c1: "cache1 = snd (cachedBitmapText raster cache c (font_medium_tall lay))" using r by simp
  have w: "w = measured_width raster lay cache c" using r by (simp add: measured_width_def)
  have cmp: "(extra \<le> device_width lay - w - MAX_CLOCK_WIDTH lay) = fits raster lay cache extra c"
    using w by (simp add: fits_def)
  show ?case
  proof (cases "fits raster lay cache extra c")
    case True
    then show ?thesis using cmp by (simp add: r assms)
  next
    case False
    have eq: "fits raster lay cache1 extra = fits raster lay cache extra"
      using fits_after_insert [of raster lay cache c extra] r by simp
    obtain cache' where
      "fit_loop raster lay vis final cs cache1 =
         Inr ((case find (fits raster lay cache extra) cs of Some c \<Rightarrow> c | None \<Rightarrow> final), cache')"
      using Cons [of cache1] unfolding eq by blast
    then show ?thesis using False cmp by (simp add: r assms)
  qed
qed

text \<open>
  C5. For every non-empty list of candidates, with the icon present whenever it is to be
  shown: the fitter returns the first candidate whose measured width \<open>w\<close> satisfies
  \<open>(device_width - w) - MAX_CLOCK_WIDTH \<ge> extraReservedWidth\<close>, and the last candidate
  when none does. So the result is one of the candidates, it is no error, and it fits
  unless no candidate fits.
\<close>

theorem select_fit_first_fit:
  assumes "candidates \<noteq> []"
    and "icon_space_needed lay is_umbrella_visible = Inr extraReservedWidth"
  shows "\<exists>chosen cache'.
           select_fit raster lay is_umbrella_visible candidates cache = Inr (chosen, cache')
         \<and> chosen = (case find (fits raster lay cache extraReservedWidth) candidates of
                       Some c \<Rightarrow> c | None \<Rightarrow> last candidates)
         \<and> chosen \<in> set candidates
         \<and> (fits raster lay cache extraReservedWidth chosen
              \<or> (\<forall>c \<in> set candidates. \<not> fits raster lay cache extraReservedWidth c))"
proof -
  let ?P = "fits raster lay cache extraReservedWidth"
  let ?c = "case find ?P candidates of Some c \<Rightarrow> c | None \<Rightarrow> last candidates"
  obtain cache' where
    "fit_loop raster lay is_umbrella_visible (last candidates) candidates cache = Inr (?c, cache')"
    using fit_loop_first_fit [OF assms(2)] by blast
  then have 1: "select_fit raster lay is_umbrella_visible candidates cache = Inr (?c, cache')"
    using assms(1) by (simp add: select_fit_def)
  have 2: "?c \<in> set candidates"
    using assms(1) by (auto simp: find_Some_iff split: option.splits)
  have 3: "?P ?c \<or> (\<forall>c \<in> set candidates. \<not> ?P c)"
    by (auto simp: find_Some_iff find_None_iff split: option.splits)
  show ?thesis using 1 2 3 by blast
qed


lemma date_formats_new_year:
  "date_formats new_year_2024 =
     [''Monday, 1st January 2024'', ''Monday, 1st January'', ''Mon, 1st January'']"
  by code_simp

lemma fits_examples:
  "\<not> fits box_raster example_layout Map.empty 0 ''Monday, 1st January 2024''"
  "\<not> fits box_raster example_layout Map.empty 0 ''Monday, 1st January''"
  "fits box_raster example_layout Map.empty 0 ''Mon, 1st January''"
  by (simp_all add: fits_def measured_width_def cachedBitmapText_def box_raster_def
      example_layout_def font_medium_def getname_def)

theorem select_fit_first_fit_witness:
  "date_formats new_year_2024 \<noteq> []
   \<and> icon_space_needed example_layout False = Inr 0
   \<and> (\<exists>cache'. select_fit box_raster example_layout False (date_formats new_year_2024) Map.empty
                  = Inr (''Mon, 1st January'', cache'))"
proof -
  have ne: "date_formats new_year_2024 \<noteq> []" by (simp add: date_formats_new_year)
  have ic: "icon_space_needed example_layout False = Inr 0" by (simp add: icon_space_needed_def)
  show ?thesis
    using ne ic select_fit_first_fit [OF ne ic, of box_raster Map.empty]
    by (auto simp: date_formats_new_year fits_examples)
qed


lemma get_display_date_str_first_fit:
  assumes "icon_space_needed lay is_umbrella_visible = Inr extraReservedWidth"
  shows "\<exists>cache'. get_display_date_str raster lay cache now is_umbrella_visible =
           Inr ((case find (fits raster lay cache extraReservedWidth) (date_formats now) of
                   Some c \<Rightarrow> c | None \<Rightarrow> last (date_formats now)), cache')"
  using fit_loop_first_fit [OF assms, of raster "last (date_formats now)" "date_formats now" cache]
  by (simp add: get_display_date_str_def select_fit_def) (simp add: date_formats_def Let_def)

subsection \<open>Substrings\<close>

lemma starts_with_iff: "starts_with s p \<longleftrightarrow> (\<exists>r. s = p @ r)"
  by (induction s p rule: starts_with.induct) auto

lemma contains_iff: "contains hay needle \<longleftrightarrow> (\<exists>p s. hay = p @ needle @ s)"
proof (induction hay)
  case Nil
  then show ?case by auto
next
  case (Cons c cs)
  show ?case
  proof
    assume "contains (c # cs) needle"
    then consider "starts_with (c # cs) needle" | "contains cs needle" by auto
    then show "\<exists>p s. c # cs = p @ needle @ s"
    proof cases
      case 1
      then obtain r where "c # cs = needle @ r" by (auto simp: starts_with_iff)
      then have "c # cs = [] @ needle @ r" by simp
      then show ?thesis by blast
    next
      case 2
      then obtain p s where "cs = p @ needle @ s" using Cons by blast
      then have "c # cs = (c # p) @ needle @ s" by simp
      then show ?thesis by blast
    qed
  next
    assume "\<exists>p s. c # cs = p @ needle @ s"
    then obtain p s where ps: "c # cs = p @ needle @ s" by blast
    show "contains (c # cs) needle"
    proof (cases p)
      case Nil
      then have "starts_with (c # cs) needle" using ps by (auto simp: starts_with_iff)
      then show ?thesis by simp
    next
      case (Cons a p')
      then have "cs = p' @ needle @ s" using ps by simp
      then have "contains cs needle" using Cons.IH by blast
      then show ?thesis by simp
    qed
  qed
qed

lemma tip_unavailable_is_sentinel: "contains tip_unavailable ''unavailable''"
  by code_simp

subsection \<open>The refresh scheduler\<close>

lemma refresh_step_not_due:
  "\<not> refresh_due cfg env st \<Longrightarrow> refresh_step cfg env st = (st, [])"
  by (simp add: refresh_step_def)

lemma refresh_step_due_requests:
  "refresh_due cfg env st \<Longrightarrow>
     \<exists>rest. snd (refresh_step cfg env st) = Request WeatherRequest # Request ForecastRequest # rest"
  by (simp add: refresh_step_def Let_def split: prod.splits)

lemma entry_step_refresh_state:
  "refresh_state (fst (entry_step cfg env st)) = refresh_state st"
  by (simp add: entry_step_def refresh_state_def Let_def)

lemma entry_step_no_network:
  "filter is_network (snd (entry_step cfg env st)) = []"
  by (simp add: entry_step_def Let_def)

lemma advance_marquee_refresh_state:
  "refresh_state (advance_marquee cfg env w h st) = refresh_state st"
  by (simp add: advance_marquee_def refresh_state_def Let_def)

lemma draw_frame_content_refresh_state:
  "draw_frame_content cfg env bg tr st = (st', fr) \<Longrightarrow> refresh_state st' = refresh_state st"
  using advance_marquee_refresh_state [of cfg env _ _ st]
  by (auto simp: draw_frame_content_def Let_def split: prod.splits if_splits)

lemma phase_step_refresh_state:
  assumes "phase_step cfg env st = Inr (st', effs)"
  shows "refresh_state st' = refresh_state st \<and> filter is_network effs = []"
proof (cases "transition_state st \<noteq> Idle
               \<and> t555 env - transition_start_time st \<ge> TRANSITION_DURATION_SECONDS cfg")
  case True
  then show ?thesis using assms
    by (auto simp: phase_step_def Let_def refresh_state_def split: if_splits)
next
  case False
  then show ?thesis using assms
    by (auto simp: phase_step_def Let_def split: if_splits prod.splits
        dest: draw_frame_content_refresh_state)
qed

lemma log_step_refresh_state:
  "refresh_state (fst (log_step env st)) = refresh_state st \<and> filter is_network (snd (log_step env st)) = []"
  by (simp add: log_step_def refresh_state_def)

lemma tick_not_due:
  assumes "\<not> refresh_due cfg env st" and "tick cfg env st = Inr (st', effs)"
  shows "filter is_network effs = [] \<and> refresh_state st' = refresh_state st"
proof -
  obtain st2 e2 where e: "entry_step cfg env st = (st2, e2)" by (cases "entry_step cfg env st")
  obtain st3 e3 where p: "phase_step cfg env st2 = Inr (st3, e3)"
    using assms e by (auto simp: tick_def refresh_step_not_due split: sum.splits)
  obtain st4 e4 where l: "log_step env st3 = (st4, e4)" by (cases "log_step env st3")
  have r: "st' = st4" "effs = e2 @ e3 @ e4"
    using assms e p l by (auto simp: tick_def refresh_step_not_due)
  have "refresh_state st2 = refresh_state st" "filter is_network e2 = []"
    using entry_step_refresh_state [of cfg env st] entry_step_no_network [of cfg env st] e by simp_all
  moreover have "refresh_state st3 = refresh_state st2" "filter is_network e3 = []"
    using phase_step_refresh_state [OF p] by simp_all
  moreover have "refresh_state st4 = refresh_state st3" "filter is_network e4 = []"
    using log_step_refresh_state [of env st3] l by simp_all
  ultimately show ?thesis using r by simp
qed

text \<open>
  C1, as the code has it. A refresh is due exactly when
  \<open>now - last_update_time > UPDATE_INTERVAL_SECONDS\<close>, strictly: the pass issues its
  requests exactly then. When it is not due, the refresh step does nothing, and the
  whole pass makes no network call and leaves the refresh state as it was. With an
  interval of 1800 and a last update at 0, a pass at 1801 refreshes, and a pass at
  1800 or at 1799 does not.
\<close>

theorem refresh_exactly_when_stale:
  "((\<exists>r. Request r \<in> set (snd (refresh_step cfg env st)))
      = (now_ts env - last_update_time st > real_of_int (UPDATE_INTERVAL_SECONDS cfg)))
   \<and> (\<not> (now_ts env - last_update_time st > real_of_int (UPDATE_INTERVAL_SECONDS cfg)) \<longrightarrow>
        refresh_step cfg env st = (st, [])
        \<and> (\<forall>st' effs. tick cfg env st = Inr (st', effs) \<longrightarrow>
              filter is_network effs = [] \<and> refresh_state st' = refresh_state st))
   \<and> (UPDATE_INTERVAL_SECONDS cfg = 1800 \<and> last_update_time st = 0 \<longrightarrow>
        (now_ts env = 1801 \<longrightarrow> Request WeatherRequest \<in> set (snd (refresh_step cfg env st)))
        \<and> (now_ts env = 1800 \<or> now_ts env = 1799 \<longrightarrow> refresh_step cfg env st = (st, [])))"
proof -
  have a: "(\<exists>r. Request r \<in> set (snd (refresh_step cfg env st))) = refresh_due cfg env st"
    using refresh_step_due_requests [of cfg env st] refresh_step_not_due [of cfg env st]
    by (cases "refresh_due cfg env st") auto
  have b: "\<not> refresh_due cfg env st \<longrightarrow>
        refresh_step cfg env st = (st, [])
        \<and> (\<forall>st' effs. tick cfg env st = Inr (st', effs) \<longrightarrow>
              filter is_network effs = [] \<and> refresh_state st' = refresh_state st)"
    using refresh_step_not_due tick_not_due by blast
  have c: "UPDATE_INTERVAL_SECONDS cfg = 1800 \<and> last_update_time st = 0 \<longrightarrow>
        (now_ts env = 1801 \<longrightarrow> Request WeatherRequest \<in> set (snd (refresh_step cfg env st)))
        \<and> (now_ts env = 1800 \<or> now_ts env = 1799 \<longrightarrow> refresh_step cfg env st = (st, []))"
    using refresh_step_due_requests [of cfg env st] refresh_step_not_due [of cfg env st]
    by (auto simp: refresh_due_def)
  show ?thesis using a b c unfolding refresh_due_def by blast
qed

theorem refresh_exactly_when_stale_witness:
  "UPDATE_INTERVAL_SECONDS example_config = 1800 \<and> last_update_time initial_globals = 0
   \<and> Request WeatherRequest \<in> set (snd (refresh_step example_config (env_at 1801) initial_globals))
   \<and> refresh_step example_config (env_at 1799) initial_globals = (initial_globals, [])
   \<and> (\<exists>st' effs. tick example_config (env_at 1799) initial_globals = Inr (st', effs)
         \<and> filter is_network effs = [] \<and> refresh_state st' = refresh_state initial_globals)"
proof -
  have 1: "UPDATE_INTERVAL_SECONDS example_config = 1800" by (simp add: example_config_def)
  have 2: "last_update_time initial_globals = 0" by (simp add: initial_globals_def)
  have 3: "now_ts (env_at 1801) = 1801" "now_ts (env_at 1799) = 1799" by (simp_all add: env_at_def)
  have 4: "\<not> (now_ts (env_at 1799) - last_update_time initial_globals
               > real_of_int (UPDATE_INTERVAL_SECONDS example_config))"
    by (simp add: 1 2 3)
  obtain st' effs where 5: "tick example_config (env_at 1799) initial_globals = Inr (st', effs)"
    by (simp add: tick_def refresh_step_def refresh_due_def 1 2 3 entry_step_def phase_step_def
        log_step_def draw_frame_content_def advance_marquee_def example_config_def env_at_def
        initial_globals_def Let_def view_bg_def)
  show ?thesis
    using refresh_exactly_when_stale [of example_config "env_at 1801" initial_globals]
      refresh_exactly_when_stale [of example_config "env_at 1799" initial_globals]
      1 2 3 4 5 by blast
qed

text \<open>
  The scenario of C1 as the specification states it fails: at \<open>now = 1800\<close> the age
  equals the interval, the strict comparison is false, and the pass fetches nothing.
\<close>

theorem refresh_at_interval_counterexample:
  "refresh_step example_config (env_at 1800) initial_globals = (initial_globals, [])"
  by (simp add: refresh_step_def refresh_due_def example_config_def env_at_def initial_globals_def)

lemma store_weather_tip:
  "ai_tip_cache (fst (store_weather cfg env d st)) =
     (if tip_accepted (fst (get_ai_weather_tip cfg env)) (ai_tip_cache st)
      then fst (get_ai_weather_tip cfg env) else ai_tip_cache st)"
  by (cases "get_ai_weather_tip cfg env") (simp add: store_weather_def tip_accepted_def Let_def)

lemma store_weather_marquee:
  "tip_accepted (fst (get_ai_weather_tip cfg env)) (ai_tip_cache st) \<Longrightarrow>
     pixelsUp (fst (store_weather cfg env d st)) = 0
     \<and> hasElevated (fst (store_weather cfg env d st)) = 0
     \<and> scroll_x (fst (store_weather cfg env d st)) = 0
     \<and> \<not> scroll_completion_event_fired (fst (store_weather cfg env d st))"
  by (cases "get_ai_weather_tip cfg env") (simp add: store_weather_def tip_accepted_def Let_def)

lemma store_forecast_keeps:
  "ai_tip_cache (fst (store_forecast d st)) = ai_tip_cache st"
  "pixelsUp (fst (store_forecast d st)) = pixelsUp st"
  "hasElevated (fst (store_forecast d st)) = hasElevated st"
  "scroll_x (fst (store_forecast d st)) = scroll_x st"
  "scroll_completion_event_fired (fst (store_forecast d st)) = scroll_completion_event_fired st"
  by (simp_all add: store_forecast_def)

lemma get_weather_keeps:
  "ai_tip_cache (snd (get_weather env st)) = ai_tip_cache st"
  by (simp add: get_weather_def split: option.splits)

lemma get_weather_truthy: "truthy (fst (get_weather env st)) = truthy (weather_response env)"
  by (simp add: get_weather_def split: option.splits)

lemma refresh_step_unfold:
  assumes "refresh_due cfg env st"
  shows "fst (refresh_step cfg env st) =
     (let st1 = snd (get_weather env st);
          st2 = (if truthy (weather_response env)
                 then fst (store_weather cfg env (the (weather_response env)) st1) else st1)
      in if truthy (forecast_response env)
         then fst (store_forecast (the (forecast_response env)) st2) else st2)"
proof -
  obtain wd st1 where g: "get_weather env st = (wd, st1)" by (cases "get_weather env st")
  have w: "wd = weather_response env" using g by (auto simp: get_weather_def split: option.splits)
  show ?thesis using assms g w
    by (simp add: refresh_step_def Let_def get_forecast_def split: prod.splits)
qed

lemma refresh_step_tip:
  "ai_tip_cache (fst (refresh_step cfg env st)) =
     (if tip_fetched cfg env st \<and> tip_accepted (fst (get_ai_weather_tip cfg env)) (ai_tip_cache st)
      then fst (get_ai_weather_tip cfg env) else ai_tip_cache st)"
proof (cases "refresh_due cfg env st")
  case False
  then show ?thesis by (simp add: refresh_step_def tip_fetched_def)
next
  case True
  show ?thesis
    by (simp add: refresh_step_unfold [OF True] Let_def store_forecast_keeps store_weather_tip
        get_weather_keeps tip_fetched_def True)
qed

lemma refresh_step_marquee:
  assumes "tip_fetched cfg env st"
    and "tip_accepted (fst (get_ai_weather_tip cfg env)) (ai_tip_cache st)"
  shows "pixelsUp (fst (refresh_step cfg env st)) = 0
     \<and> hasElevated (fst (refresh_step cfg env st)) = 0
     \<and> scroll_x (fst (refresh_step cfg env st)) = 0
     \<and> \<not> scroll_completion_event_fired (fst (refresh_step cfg env st))"
proof -
  have d: "refresh_due cfg env st" and t: "truthy (weather_response env)"
    using assms(1) by (simp_all add: tip_fetched_def)
  have a: "tip_accepted (fst (get_ai_weather_tip cfg env)) (ai_tip_cache (snd (get_weather env st)))"
    using assms(2) by (simp add: get_weather_keeps)
  show ?thesis
    using store_weather_marquee [OF a, of "the (weather_response env)"]
    by (simp add: refresh_step_unfold [OF d] Let_def store_forecast_keeps t)
qed

lemma failed_tip_fetch_is_sentinel:
  assumes "tip_response env = None \<or> tip_response env = Some None"
  shows "fst (get_ai_weather_tip cfg env) = tip_unavailable"
  using assms by (auto simp: get_ai_weather_tip_def)

text \<open>
  C7. After the refresh step the cached tip is the fetched tip exactly when a tip was
  fetched (refresh due, weather reply a non-empty object) and it is not empty, differs
  from the cached tip and does not contain \<open>unavailable\<close>; otherwise the cached tip
  is the one from before. Whenever the cached tip changes, the four marquee fields are
  zero and false after the step. A fetched tip containing the sentinel, and a failed
  tip request (no reply, or a reply without an answer), leave the cached tip alone.
\<close>

theorem tip_accepted_or_retained:
  "(ai_tip_cache (fst (refresh_step cfg env st)) =
      (if refresh_due cfg env st \<and> truthy (weather_response env)
          \<and> fst (get_ai_weather_tip cfg env) \<noteq> []
          \<and> fst (get_ai_weather_tip cfg env) \<noteq> ai_tip_cache st
          \<and> \<not> contains (fst (get_ai_weather_tip cfg env)) ''unavailable''
       then fst (get_ai_weather_tip cfg env) else ai_tip_cache st))
   \<and> (ai_tip_cache (fst (refresh_step cfg env st)) \<noteq> ai_tip_cache st \<longrightarrow>
        pixelsUp (fst (refresh_step cfg env st)) = 0
        \<and> hasElevated (fst (refresh_step cfg env st)) = 0
        \<and> scroll_x (fst (refresh_step cfg env st)) = 0
        \<and> \<not> scroll_completion_event_fired (fst (refresh_step cfg env st)))
   \<and> (contains (fst (get_ai_weather_tip cfg env)) ''unavailable'' \<longrightarrow>
        ai_tip_cache (fst (refresh_step cfg env st)) = ai_tip_cache st)
   \<and> (tip_response env = None \<or> tip_response env = Some None \<longrightarrow>
        ai_tip_cache (fst (refresh_step cfg env st)) = ai_tip_cache st)"
proof -
  let ?new = "fst (get_ai_weather_tip cfg env)"
  let ?st' = "fst (refresh_step cfg env st)"
  have a: "ai_tip_cache ?st' =
      (if refresh_due cfg env st \<and> truthy (weather_response env)
          \<and> ?new \<noteq> [] \<and> ?new \<noteq> ai_tip_cache st \<and> \<not> contains ?new ''unavailable''
       then ?new else ai_tip_cache st)"
    using refresh_step_tip [of cfg env st] by (simp add: tip_fetched_def tip_accepted_def)
  have b: "ai_tip_cache ?st' \<noteq> ai_tip_cache st \<longrightarrow>
        pixelsUp ?st' = 0 \<and> hasElevated ?st' = 0 \<and> scroll_x ?st' = 0
        \<and> \<not> scroll_completion_event_fired ?st'"
  proof
    assume "ai_tip_cache ?st' \<noteq> ai_tip_cache st"
    then have "tip_fetched cfg env st" "tip_accepted ?new (ai_tip_cache st)"
      using a by (auto simp: tip_fetched_def tip_accepted_def split: if_splits)
    then show "pixelsUp ?st' = 0 \<and> hasElevated ?st' = 0 \<and> scroll_x ?st' = 0
        \<and> \<not> scroll_completion_event_fired ?st'"
      by (rule refresh_step_marquee)
  qed
  have c: "contains ?new ''unavailable'' \<longrightarrow> ai_tip_cache ?st' = ai_tip_cache st"
    using a by simp
  have d: "tip_response env = None \<or> tip_response env = Some None \<longrightarrow>
        ai_tip_cache ?st' = ai_tip_cache st"
    using c failed_tip_fetch_is_sentinel [of env cfg] tip_unavailable_is_sentinel by auto
  show ?thesis using a b c d by blast
qed

lemma example_refresh_due: "refresh_due example_config (env_at 1801) scrolled_state"
  by (simp add: refresh_due_def example_config_def env_at_def scrolled_state_def initial_globals_def)

lemma example_weather_truthy: "truthy (weather_response (env_at t))"
  by (simp add: truthy_def env_at_def)

lemma example_tip: "fst (get_ai_weather_tip example_config (env_at t)) = ''Mild and dry in London today.''"
  by (simp add: get_ai_weather_tip_def example_config_def env_at_def strip_def is_space_def)

lemma example_tip_not_sentinel: "\<not> contains ''Mild and dry in London today.'' ''unavailable''"
  by code_simp

theorem tip_accepted_or_retained_witness:
  "ai_tip_cache (fst (refresh_step example_config (env_at 1801) scrolled_state))
     = ''Mild and dry in London today.''
   \<and> pixelsUp scrolled_state = 8
   \<and> pixelsUp (fst (refresh_step example_config (env_at 1801) scrolled_state)) = 0
   \<and> scroll_x (fst (refresh_step example_config (env_at 1801) scrolled_state)) = 0
   \<and> ai_tip_cache (fst (refresh_step example_config (env_at 1801\<lparr>tip_response := None\<rparr>) scrolled_state))
     = ''Cold and windy in London today.''"
proof -
  have t: "ai_tip_cache scrolled_state = ''Cold and windy in London today.''"
    "pixelsUp scrolled_state = 8"
    by (simp_all add: scrolled_state_def)
  let ?st' = "fst (refresh_step example_config (env_at 1801) scrolled_state)"
  let ?failed = "env_at 1801\<lparr>tip_response := None\<rparr>"
  note accepted = tip_accepted_or_retained [of example_config "env_at 1801" scrolled_state]
  note retained = tip_accepted_or_retained [of example_config ?failed scrolled_state]
  have a: "ai_tip_cache ?st' = ''Mild and dry in London today.''"
    using accepted [THEN conjunct1] example_refresh_due example_weather_truthy [of 1801]
      example_tip [of 1801] example_tip_not_sentinel t
    by simp
  have b: "pixelsUp ?st' = 0 \<and> scroll_x ?st' = 0"
    using accepted [THEN conjunct2, THEN conjunct1] a t by simp
  have c: "ai_tip_cache (fst (refresh_step example_config ?failed scrolled_state))
             = ''Cold and windy in London today.''"
    using retained [THEN conjunct2, THEN conjunct2, THEN conjunct2] t by simp
  show ?thesis using a b c t by simp
qed

subsection \<open>The view transition controller\<close>

lemma moves_append: "moves (xs @ ys) = moves xs @ moves ys"
  by (induction xs rule: moves.induct) simp_all

lemma follows_append:
  "follows s (xs @ ys) = (case follows s xs of None \<Rightarrow> None | Some t \<Rightarrow> follows t ys)"
  by (induction s xs rule: follows.induct) simp_all

lemma legal_path_append:
  "legal_path eff s xs t \<Longrightarrow> legal_path eff t ys u \<Longrightarrow> legal_path eff s (xs @ ys) u"
  by (simp add: legal_path_def follows_append)

lemma refresh_step_transition_state:
  "transition_state (fst (refresh_step cfg env st)) = transition_state st"
proof (cases "refresh_due cfg env st")
  case True
  have g: "transition_state (snd (get_weather env st)) = transition_state st"
    by (simp add: get_weather_def split: option.splits)
  have w: "\<And>d s. transition_state (fst (store_weather cfg env d s)) = transition_state s"
    by (simp add: store_weather_def Let_def split: prod.splits)
  have f: "\<And>d s. transition_state (fst (store_forecast d s)) = transition_state s"
    by (simp add: store_forecast_def)
  show ?thesis by (simp add: refresh_step_unfold [OF True] Let_def g w f)
next
  case False
  then show ?thesis by (simp add: refresh_step_not_due)
qed

lemma refresh_step_effects:
  assumes "refresh_due cfg env st"
  shows "snd (refresh_step cfg env st) =
     [Request WeatherRequest, Request ForecastRequest]
       @ (if truthy (weather_response env)
          then snd (store_weather cfg env (the (weather_response env)) (snd (get_weather env st)))
          else [])
       @ (if truthy (forecast_response env)
          then [SaveForecastCache (the (forecast_response env)),
                RenderBackground (ForecastBg (the (forecast_response env)))]
          else [])"
proof -
  obtain wd st1 where g: "get_weather env st = (wd, st1)" by (cases "get_weather env st")
  have w: "wd = weather_response env" using g by (auto simp: get_weather_def split: option.splits)
  show ?thesis using assms g w
    by (simp add: refresh_step_def Let_def get_forecast_def store_forecast_def split: prod.splits)
qed

lemma store_weather_moves: "moves (snd (store_weather cfg env d st)) = []"
  by (cases "get_ai_weather_tip cfg env")
     (auto simp: store_weather_def get_ai_weather_tip_def Let_def moves_append split: if_splits)

lemma refresh_step_moves: "moves (snd (refresh_step cfg env st)) = []"
proof (cases "refresh_due cfg env st")
  case True
  show ?thesis by (simp add: refresh_step_effects [OF True] moves_append store_weather_moves)
next
  case False
  then show ?thesis by (simp add: refresh_step_not_due)
qed

lemma entry_step_path:
  "legal_path eff (transition_state st) (moves (snd (entry_step cfg env st)))
     (transition_state (fst (entry_step cfg env st)))"
  by (simp add: entry_step_def Let_def legal_path_def)

lemma advance_marquee_frame:
  "transition_state (advance_marquee cfg env w h st) = transition_state st"
  "transition_start_time (advance_marquee cfg env w h st) = transition_start_time st"
  "is_showing_forecast (advance_marquee cfg env w h st) = is_showing_forecast st"
  "forecast_bg (advance_marquee cfg env w h st) = forecast_bg st"
  "current_weather_bg (advance_marquee cfg env w h st) = current_weather_bg st"
  "ai_tip_cache (advance_marquee cfg env w h st) = ai_tip_cache st"
  by (simp_all add: advance_marquee_def Let_def)

lemma draw_frame_content_result:
  assumes "draw_frame_content cfg env bg tr st = (st', fr)"
  shows "st' = (if tr \<or> ai_tip_cache st = [] then st
                else advance_marquee cfg env (fst (tip_size env)) (snd (tip_size env)) st)
         \<and> background fr = bg"
  using assms by (auto simp: draw_frame_content_def Let_def split: if_splits prod.splits)

lemma phase_step_path:
  assumes "phase_step cfg env st = Inr (st', effs)"
  shows "legal_path (TRANSITION_EFFECT cfg) (transition_state st) (moves effs) (transition_state st')"
proof (cases "transition_state st \<noteq> Idle
               \<and> t555 env - transition_start_time st \<ge> TRANSITION_DURATION_SECONDS cfg")
  case True
  then show ?thesis using assms
    by (cases "transition_state st") (auto simp: phase_step_def Let_def legal_path_def)
next
  case False
  then show ?thesis using assms
    by (auto simp: phase_step_def Let_def legal_path_def advance_marquee_frame
        split: if_splits prod.splits dest!: draw_frame_content_result)
qed

lemma log_step_path:
  "transition_state (fst (log_step env st)) = transition_state st \<and> moves (snd (log_step env st)) = []"
  by (simp add: log_step_def)

lemma tick_path:
  assumes "tick cfg env st = Inr (st', effs)"
  shows "legal_path (TRANSITION_EFFECT cfg) (transition_state st) (moves effs) (transition_state st')"
proof -
  obtain st1 e1 where r: "refresh_step cfg env st = (st1, e1)" by (cases "refresh_step cfg env st")
  obtain st2 e2 where e: "entry_step cfg env st1 = (st2, e2)" by (cases "entry_step cfg env st1")
  obtain st3 e3 where p: "phase_step cfg env st2 = Inr (st3, e3)"
    using assms r e by (auto simp: tick_def split: sum.splits)
  obtain st4 e4 where l: "log_step env st3 = (st4, e4)" by (cases "log_step env st3")
  have res: "st' = st4" "effs = e1 @ e2 @ e3 @ e4"
    using assms r e p l by (auto simp: tick_def)
  have 1: "transition_state st1 = transition_state st" "moves e1 = []"
    using refresh_step_transition_state [of cfg env st] refresh_step_moves [of cfg env st] r
    by simp_all
  have 2: "legal_path (TRANSITION_EFFECT cfg) (transition_state st1) (moves e2) (transition_state st2)"
    using entry_step_path [of _ st1 cfg env] e by simp
  have 3: "legal_path (TRANSITION_EFFECT cfg) (transition_state st2) (moves e3) (transition_state st3)"
    using phase_step_path [OF p] .
  have 4: "transition_state st4 = transition_state st3" "moves e4 = []"
    using log_step_path [of env st3] l by simp_all
  show ?thesis
    using legal_path_append [OF 2 3] 1 4 by (simp add: res moves_append)
qed

lemma loop_iteration_path:
  assumes "loop_iteration cfg env st = Inr (st', effs)"
  shows "legal_path (TRANSITION_EFFECT cfg) (transition_state st) (moves effs) (transition_state st')"
proof -
  let ?st1 = "if Some (is_within_operating_hours python_int (OPERATING_HOURS cfg) (clock_hour env)) \<noteq> is_active st
              then st\<lparr>is_active := Some (is_within_operating_hours python_int (OPERATING_HOURS cfg) (clock_hour env))\<rparr>
              else st"
  have ts: "transition_state ?st1 = transition_state st" by simp
  show ?thesis
  proof (cases "is_active ?st1 \<noteq> Some True")
    case True
    then have "st' = ?st1" "effs = [Sleep 60]"
      using assms by (simp_all add: loop_iteration_def Let_def)
    then show ?thesis using ts by (simp add: legal_path_def)
  next
    case False
    then have "tick cfg env ?st1 = Inr (st', effs)"
      using assms by (simp add: loop_iteration_def Let_def)
    from tick_path [OF this] show ?thesis using ts by simp
  qed
qed

text \<open>
  C2. In every run of the loop, from any state and so from idle, the assignments to
  \<open>transition_state\<close> form one path from the state at the start to the state at the
  end, and every step of it is idle to out, out to in, out to idle or in to idle; out to
  in is taken exactly when the effect is \<open>wipe\<close> or \<open>blink\<close>, out to idle exactly
  when it is neither. One pass can take two steps (into out and out of it again).
\<close>

theorem transitions_follow_cycle:
  assumes "run cfg envs st = Inr (st', effs)"
  shows "follows (transition_state st) (moves effs) = Some (transition_state st')
         \<and> (\<forall>(a, b) \<in> set (moves effs). allowed_move (TRANSITION_EFFECT cfg) a b)"
proof -
  have "legal_path (TRANSITION_EFFECT cfg) (transition_state st) (moves effs) (transition_state st')"
    using assms
  proof (induction envs arbitrary: st st' effs)
    case Nil
    then show ?case by (simp add: legal_path_def)
  next
    case (Cons env envs)
    obtain st1 e1 where i: "loop_iteration cfg env st = Inr (st1, e1)"
      using Cons.prems by (auto split: sum.splits)
    obtain st2 e2 where r: "run cfg envs st1 = Inr (st2, e2)"
      using Cons.prems i by (auto split: sum.splits)
    have res: "st' = st2" "effs = e1 @ e2" using Cons.prems i r by simp_all
    show ?case
      using legal_path_append [OF loop_iteration_path [OF i] Cons.IH [OF r]]
      by (simp add: res moves_append)
  qed
  then show ?thesis by (simp add: legal_path_def list_all_iff)
qed

lemma example_hours: "is_within_operating_hours python_int ''8-22'' 12"
  by code_simp

lemmas step_defs = loop_iteration_def tick_def refresh_step_def refresh_due_def entry_step_def
  phase_step_def log_step_def draw_frame_content_def view_bg_def Let_def

lemmas example_defs = ready_state_def initial_globals_def env_at_def example_config_def

lemma scenario_result:
  "\<exists>st' effs. run example_config scenario ready_state = Inr (st', effs)
     \<and> moves effs = [(Idle, Out), (Out, In), (In, Idle)]
     \<and> map background (draws effs) =
         [Some (WeatherBg [(''name'', ''London'')]), Some (WeatherBg [(''name'', ''London'')]),
          Some (ForecastBg [(''cnt'', ''40'')])]
     \<and> transition_state st' = Idle \<and> is_showing_forecast st'"
  by (simp add: scenario_def step_defs example_defs example_hours)

theorem transitions_follow_cycle_witness:
  "\<exists>st' effs. run example_config scenario ready_state = Inr (st', effs)
     \<and> transition_state ready_state = Idle
     \<and> moves effs = [(Idle, Out), (Out, In), (In, Idle)]
     \<and> follows Idle (moves effs) = Some (transition_state st')
     \<and> allowed_move (TRANSITION_EFFECT example_config) Out In"
proof -
  obtain st' effs where r: "run example_config scenario ready_state = Inr (st', effs)"
    and m: "moves effs = [(Idle, Out), (Out, In), (In, Idle)]"
    using scenario_result by blast
  have i: "transition_state ready_state = Idle" by (simp add: example_defs)
  show ?thesis using transitions_follow_cycle [OF r] r m i by auto
qed

lemma draws_append: "draws (xs @ ys) = draws xs @ draws ys"
  by (induction xs rule: draws.induct) simp_all

lemma out_exits_append: "out_exits (xs @ ys) = out_exits xs + out_exits ys"
  by (induction xs rule: out_exits.induct) simp_all

text \<open>The four ways through \<open>phase_step\<close>.\<close>

lemma phase_step_cases:
  assumes "phase_step cfg env st = Inr (st', effs)"
  obtains
    (out_done) "transition_state st = Out"
      "t555 env - transition_start_time st \<ge> TRANSITION_DURATION_SECONDS cfg"
      "st' = st\<lparr>is_showing_forecast := \<not> is_showing_forecast st,
                pixelsUp := 0, hasElevated := 0, scroll_x := 0,
                scroll_completion_event_fired := False,
                transition_state := (if TRANSITION_EFFECT cfg \<in> set [''wipe'', ''blink''] then In else Idle),
                transition_start_time := t562 env\<rparr>"
      "effs = [Transition Out (if TRANSITION_EFFECT cfg \<in> set [''wipe'', ''blink''] then In else Idle)]"
  | (in_done) "transition_state st = In"
      "t555 env - transition_start_time st \<ge> TRANSITION_DURATION_SECONDS cfg"
      "st' = st\<lparr>transition_state := Idle\<rparr>" "effs = [Transition In Idle]"
  | (progress) fr where "transition_state st \<noteq> Idle"
      "\<not> t555 env - transition_start_time st \<ge> TRANSITION_DURATION_SECONDS cfg"
      "st' = st" "effs = [Draw fr]" "background fr = view_bg st"
  | (steady) fr where "transition_state st = Idle"
      "st' = (if ai_tip_cache st = [] then st
              else advance_marquee cfg env (fst (tip_size env)) (snd (tip_size env)) st)"
      "effs = [Draw fr]" "background fr = view_bg st"
proof (cases "transition_state st = Idle")
  case True
  then obtain fr where "draw_frame_content cfg env (view_bg st) False st = (st', fr)" "effs = [Draw fr]"
    using assms by (auto simp: phase_step_def split: prod.splits)
  then show ?thesis using steady True draw_frame_content_result by fastforce
next
  case notidle: False
  show ?thesis
  proof (cases "t555 env - transition_start_time st \<ge> TRANSITION_DURATION_SECONDS cfg")
    case True
    show ?thesis
    proof (cases "transition_state st = Out")
      case o: True
      then show ?thesis using out_done True assms by (simp add: phase_step_def Let_def)
    next
      case False
      then have "transition_state st = In" using notidle by (cases "transition_state st") auto
      then show ?thesis using in_done True assms by (simp add: phase_step_def Let_def)
    qed
  next
    case False
    then obtain fr0 where d: "draw_frame_content cfg env (view_bg st) True st = (st', fr0)"
      and e: "effs = [Draw (fr0\<lparr>overlay := effect_overlay cfg (transition_state st = Out)
                 ((t555 env - transition_start_time st) / TRANSITION_DURATION_SECONDS cfg)\<rparr>)]"
      using assms notidle by (auto simp: phase_step_def Let_def split: if_splits prod.splits)
    have "st' = st" "background fr0 = view_bg st" using draw_frame_content_result [OF d] by simp_all
    then show ?thesis using progress [OF notidle False _ e] by simp
  qed
qed

lemma tick_steps:
  assumes "tick cfg env st = Inr (st', effs)"
  obtains e3 st3 where
    "phase_step cfg env (fst (entry_step cfg env (fst (refresh_step cfg env st)))) = Inr (st3, e3)"
    "st' = fst (log_step env st3)"
    "effs = snd (refresh_step cfg env st) @ snd (entry_step cfg env (fst (refresh_step cfg env st)))
              @ e3 @ snd (log_step env st3)"
  using assms by (auto simp: tick_def split: prod.splits sum.splits)

lemma get_weather_frame:
  "is_showing_forecast (snd (get_weather env st)) = is_showing_forecast st"
  "transition_state (snd (get_weather env st)) = transition_state st"
  by (simp_all add: get_weather_def split: option.splits)

lemma store_weather_frame:
  "is_showing_forecast (fst (store_weather cfg env d st)) = is_showing_forecast st"
  "forecast_bg (fst (store_weather cfg env d st)) = forecast_bg st"
  "current_weather_bg (fst (store_weather cfg env d st)) = Some (WeatherBg d)"
  by (cases "get_ai_weather_tip cfg env"; simp add: store_weather_def Let_def)+

lemma store_forecast_frame:
  "is_showing_forecast (fst (store_forecast d st)) = is_showing_forecast st"
  "current_weather_bg (fst (store_forecast d st)) = current_weather_bg st"
  "forecast_bg (fst (store_forecast d st)) = Some (ForecastBg d)"
  by (simp_all add: store_forecast_def)

lemma refresh_step_view:
  "is_showing_forecast (fst (refresh_step cfg env st)) = is_showing_forecast st"
proof (cases "refresh_due cfg env st")
  case True
  show ?thesis
    by (simp add: refresh_step_unfold [OF True] Let_def get_weather_frame store_weather_frame
        store_forecast_frame)
next
  case False
  then show ?thesis by (simp add: refresh_step_not_due)
qed

lemma store_weather_draws: "draws (snd (store_weather cfg env d st)) = []"
  by (cases "get_ai_weather_tip cfg env")
     (auto simp: store_weather_def get_ai_weather_tip_def Let_def draws_append split: if_splits)

lemma refresh_step_draws: "draws (snd (refresh_step cfg env st)) = []"
proof (cases "refresh_due cfg env st")
  case True
  show ?thesis by (simp add: refresh_step_effects [OF True] draws_append store_weather_draws)
next
  case False
  then show ?thesis by (simp add: refresh_step_not_due)
qed

lemma entry_step_frame:
  "is_showing_forecast (fst (entry_step cfg env st)) = is_showing_forecast st"
  "pixelsUp (fst (entry_step cfg env st)) = pixelsUp st"
  "hasElevated (fst (entry_step cfg env st)) = hasElevated st"
  "scroll_x (fst (entry_step cfg env st)) = scroll_x st"
  "forecast_bg (fst (entry_step cfg env st)) = forecast_bg st"
  "current_weather_bg (fst (entry_step cfg env st)) = current_weather_bg st"
  "draws (snd (entry_step cfg env st)) = []"
  "out_exits (moves (snd (entry_step cfg env st))) = 0"
  by (simp_all add: entry_step_def Let_def)

lemma log_step_frame:
  "is_showing_forecast (fst (log_step env st)) = is_showing_forecast st"
  "pixelsUp (fst (log_step env st)) = pixelsUp st"
  "hasElevated (fst (log_step env st)) = hasElevated st"
  "scroll_x (fst (log_step env st)) = scroll_x st"
  "scroll_completion_event_fired (fst (log_step env st)) = scroll_completion_event_fired st"
  "forecast_bg (fst (log_step env st)) = forecast_bg st"
  "current_weather_bg (fst (log_step env st)) = current_weather_bg st"
  "transition_state (fst (log_step env st)) = transition_state st"
  "draws (snd (log_step env st)) = []"
  "moves (snd (log_step env st)) = []"
  by (simp_all add: log_step_def)

text \<open>
  C3. In a pass, \<open>is_showing_forecast\<close> is negated if the out phase completes in that
  pass (the state is \<open>out\<close> and the elapsed time has reached the transition duration)
  and keeps its value otherwise; the pass records one move out of \<open>out\<close> in the first
  case and none in the second. A pass in which the out phase completes leaves \<open>out\<close>
  and draws no frame; a pass that draws a frame, of a transition or a steady one, leaves
  the selector alone.
\<close>

theorem view_flips_once_per_out_phase:
  assumes "tick cfg env st = Inr (st', effs)"
  shows "is_showing_forecast st' =
           (if out_phase_completes cfg env st then \<not> is_showing_forecast st
            else is_showing_forecast st)
       \<and> out_exits (moves effs) = (if out_phase_completes cfg env st then 1 else 0)
       \<and> (out_phase_completes cfg env st \<longrightarrow> transition_state st' \<noteq> Out \<and> draws effs = [])
       \<and> (draws effs \<noteq> [] \<longrightarrow> is_showing_forecast st' = is_showing_forecast st)"
proof -
  let ?st2 = "fst (entry_step cfg env (fst (refresh_step cfg env st)))"
  obtain e3 st3 where p: "phase_step cfg env ?st2 = Inr (st3, e3)"
    and s: "st' = fst (log_step env st3)"
    and e: "effs = snd (refresh_step cfg env st)
              @ snd (entry_step cfg env (fst (refresh_step cfg env st))) @ e3 @ snd (log_step env st3)"
    using tick_steps [OF assms] by blast
  have v2: "is_showing_forecast ?st2 = is_showing_forecast st"
    by (simp add: entry_step_frame refresh_step_view)
  have m: "out_exits (moves effs) = out_exits (moves e3)"
    by (simp add: e moves_append out_exits_append refresh_step_moves entry_step_frame log_step_frame)
  have d: "draws effs = draws e3"
    by (simp add: e draws_append refresh_step_draws entry_step_frame log_step_frame)
  have c: "out_phase_completes cfg env st \<longleftrightarrow>
             transition_state ?st2 = Out
             \<and> t555 env - transition_start_time ?st2 \<ge> TRANSITION_DURATION_SECONDS cfg"
    by (simp add: out_phase_completes_def Let_def)
  from p show ?thesis
  proof (cases rule: phase_step_cases)
    case out_done
    then show ?thesis using v2 m d c s by (simp add: log_step_frame)
  next
    case in_done
    then show ?thesis using v2 m d c s by (simp add: log_step_frame)
  next
    case (progress fr)
    then show ?thesis using v2 m d c s by (simp add: log_step_frame)
  next
    case (steady fr)
    then show ?thesis using v2 m d c s by (simp add: log_step_frame advance_marquee_frame)
  qed
qed

lemmas example_defs2 = example_defs out_state_def

theorem view_flips_once_per_out_phase_witness:
  "\<exists>st' effs. tick example_config (env_at (1010 + 3 / 10)) out_state = Inr (st', effs)
     \<and> out_phase_completes example_config (env_at (1010 + 3 / 10)) out_state
     \<and> \<not> is_showing_forecast out_state \<and> is_showing_forecast st'
     \<and> out_exits (moves effs) = 1"
proof -
  obtain st' effs where t: "tick example_config (env_at (1010 + 3 / 10)) out_state = Inr (st', effs)"
    by (simp add: step_defs example_defs2)
  have c: "out_phase_completes example_config (env_at (1010 + 3 / 10)) out_state"
    by (simp add: out_phase_completes_def step_defs example_defs2)
  have o: "\<not> is_showing_forecast out_state" by (simp add: example_defs2)
  show ?thesis using view_flips_once_per_out_phase [OF t] t c o by simp
qed

lemma view_after_append: "view_after v (xs @ ys) = view_after (view_after v xs) ys"
  by (induction v xs rule: view_after.induct) simp_all

lemma frames_draw_append:
  "frames_draw st v (xs @ ys) \<longleftrightarrow> frames_draw st v xs \<and> frames_draw st (view_after v xs) ys"
  by (induction st v xs rule: frames_draw.induct) simp_all

lemma quiet_effects:
  assumes "draws xs = []" and "moves xs = []"
  shows "frames_draw st v xs \<and> view_after v xs = v"
  using assms
proof (induction xs)
  case Nil
  then show ?case by simp
next
  case (Cons x xs)
  then show ?case by (cases x) simp_all
qed

lemma tick_frames:
  assumes "tick cfg env st = Inr (st', effs)"
  shows "frames_draw st' (is_showing_forecast st) effs
         \<and> view_after (is_showing_forecast st) effs = is_showing_forecast st'"
proof -
  let ?st1 = "fst (refresh_step cfg env st)"
  let ?st2 = "fst (entry_step cfg env ?st1)"
  let ?v = "is_showing_forecast st"
  obtain e3 st3 where p: "phase_step cfg env ?st2 = Inr (st3, e3)"
    and s: "st' = fst (log_step env st3)"
    and e: "effs = snd (refresh_step cfg env st) @ snd (entry_step cfg env ?st1) @ e3
                     @ snd (log_step env st3)"
    using tick_steps [OF assms] by blast
  have v2: "is_showing_forecast ?st2 = ?v"
    by (simp add: entry_step_frame refresh_step_view)
  have b: "selected_bg v st' = selected_bg v st3" for v
    using s by (simp add: selected_bg_def log_step_frame)
  have q1: "frames_draw st' ?v (snd (refresh_step cfg env st))
            \<and> view_after ?v (snd (refresh_step cfg env st)) = ?v"
    by (rule quiet_effects) (simp_all add: refresh_step_draws refresh_step_moves)
  have q2: "frames_draw st' ?v (snd (entry_step cfg env ?st1))
            \<and> view_after ?v (snd (entry_step cfg env ?st1)) = ?v"
    by (simp add: entry_step_def Let_def)
  have q4: "frames_draw st' v (snd (log_step env st3)) \<and> view_after v (snd (log_step env st3)) = v" for v
    by (rule quiet_effects) (simp_all add: log_step_frame)
  have q3: "frames_draw st' ?v e3 \<and> view_after ?v e3 = is_showing_forecast st3"
    using p
  proof (cases rule: phase_step_cases)
    case out_done
    then show ?thesis using v2 by simp
  next
    case in_done
    then show ?thesis using v2 by simp
  next
    case (progress fr)
    then show ?thesis using v2 b by (simp add: selected_bg_def view_bg_def)
  next
    case (steady fr)
    then show ?thesis using v2 b
      by (simp add: selected_bg_def view_bg_def advance_marquee_frame)
  qed
  show ?thesis
    using q1 q2 q3 q4 s
    by (simp add: e frames_draw_append view_after_append log_step_frame)
qed

lemma loop_iteration_frames:
  assumes "loop_iteration cfg env st = Inr (st', effs)"
  shows "frames_draw st' (is_showing_forecast st) effs
         \<and> view_after (is_showing_forecast st) effs = is_showing_forecast st'"
proof -
  let ?st1 = "if Some (is_within_operating_hours python_int (OPERATING_HOURS cfg) (clock_hour env)) \<noteq> is_active st
              then st\<lparr>is_active := Some (is_within_operating_hours python_int (OPERATING_HOURS cfg) (clock_hour env))\<rparr>
              else st"
  have f: "is_showing_forecast ?st1 = is_showing_forecast st" by simp
  show ?thesis
  proof (cases "is_active ?st1 \<noteq> Some True")
    case True
    then have "st' = ?st1" "effs = [Sleep 60]"
      using assms by (simp_all add: loop_iteration_def Let_def)
    then show ?thesis using f by simp
  next
    case False
    then have "tick cfg env ?st1 = Inr (st', effs)"
      using assms by (simp add: loop_iteration_def Let_def)
    from tick_frames [OF this] show ?thesis using f by simp
  qed
qed

lemma run_passes:
  assumes "run cfg envs st = Inr (st', effs)"
  shows "effs = concat (map snd (passes cfg envs st))
         \<and> length (passes cfg envs st) = length envs
         \<and> st' = last (st # map fst (passes cfg envs st))"
  using assms
proof (induction envs arbitrary: st st' effs)
  case Nil
  then show ?case by simp
next
  case (Cons env envs)
  obtain st1 e1 where i: "loop_iteration cfg env st = Inr (st1, e1)"
    using Cons.prems by (auto split: sum.splits)
  obtain st2 e2 where r: "run cfg envs st1 = Inr (st2, e2)"
    using Cons.prems i by (auto split: sum.splits)
  have res: "st' = st2" "effs = e1 @ e2" using Cons.prems i r by simp_all
  show ?case using Cons.IH [OF r] i by (simp add: res)
qed

text \<open>
  The background of every frame a pass draws is the one the selector picks after the
  pass, and the pass has not changed the selector.
\<close>

lemma transition_frame_background:
  assumes "tick cfg env st = Inr (st', effs)" and "fr \<in> set (draws effs)"
  shows "background fr = view_bg st' \<and> is_showing_forecast st' = is_showing_forecast st"
proof -
  let ?st2 = "fst (entry_step cfg env (fst (refresh_step cfg env st)))"
  obtain e3 st3 where p: "phase_step cfg env ?st2 = Inr (st3, e3)"
    and s: "st' = fst (log_step env st3)"
    and e: "effs = snd (refresh_step cfg env st)
              @ snd (entry_step cfg env (fst (refresh_step cfg env st))) @ e3 @ snd (log_step env st3)"
    using tick_steps [OF assms(1)] by blast
  have v2: "is_showing_forecast ?st2 = is_showing_forecast st"
    by (simp add: entry_step_frame refresh_step_view)
  have d: "fr \<in> set (draws e3)"
    using assms(2) by (simp add: e draws_append refresh_step_draws entry_step_frame log_step_frame)
  have b: "view_bg st' = view_bg st3" using s by (simp add: view_bg_def log_step_frame)
  from p show ?thesis
  proof (cases rule: phase_step_cases)
    case out_done
    then show ?thesis using d by simp
  next
    case in_done
    then show ?thesis using d by simp
  next
    case (progress fr')
    then show ?thesis using d v2 b s by (simp add: log_step_frame)
  next
    case (steady fr')
    then show ?thesis using d v2 b s
      by (simp add: log_step_frame view_bg_def advance_marquee_frame)
  qed
qed

text \<open>
  C4. In every run of the loop, from any state, every frame has drawn exactly the
  background of the view picked by the selector of the start, flipped once for every
  move out of the out phase recorded before the frame. The frames of an out phase come
  before its move out of \<open>out\<close>, so they draw the background of the view from before
  the switch; the frames of the in phase come after it and draw the background of the
  new view.
\<close>

theorem frames_show_selected_view:
  "frames_follow_switch (is_showing_forecast st) (passes cfg envs st)"
proof (induction envs arbitrary: st)
  case Nil
  show ?case by simp
next
  case (Cons env envs)
  show ?case
  proof (cases "loop_iteration cfg env st")
    case (Inl e)
    then show ?thesis by simp
  next
    case (Inr r)
    obtain st1 e1 where r: "r = (st1, e1)" by (cases r)
    have i: "loop_iteration cfg env st = Inr (st1, e1)" using Inr r by simp
    show ?thesis
      using loop_iteration_frames [OF i] Cons [of st1] i by simp
  qed
qed

text \<open>
  With a transition duration of zero the pass that enters the out phase also ends it:
  two moves in one pass, each of them allowed.
\<close>

lemma two_moves_in_one_pass:
  "\<exists>st' effs.
     tick (example_config\<lparr>TRANSITION_DURATION_SECONDS := 0\<rparr>) (env_at 1010) ready_state
       = Inr (st', effs)
     \<and> moves effs = [(Idle, Out), (Out, In)] \<and> transition_state st' = In"
  by (simp add: step_defs example_defs)

lemma out_state_reached:
  "\<exists>effs. tick example_config (env_at 1010) ready_state = Inr (out_state, effs)"
  by (simp add: step_defs example_defs2)

lemma scenario_passes:
  "map (\<lambda>(s, effs). (transition_state s, is_showing_forecast s, moves effs, map background (draws effs)))
       (passes example_config scenario ready_state) =
     [(Out, False, [(Idle, Out)], [Some (WeatherBg [(''name'', ''London'')])]),
      (Out, False, [], [Some (WeatherBg [(''name'', ''London'')])]),
      (In, True, [(Out, In)], []),
      (In, True, [], [Some (ForecastBg [(''cnt'', ''40'')])]),
      (Idle, True, [(In, Idle)], [])]"
  by (simp add: scenario_def step_defs example_defs example_hours)

theorem frames_show_selected_view_witness:
  "\<not> is_showing_forecast ready_state
   \<and> frames_follow_switch False (passes example_config scenario ready_state)
   \<and> map (\<lambda>(s, effs). (transition_state s, is_showing_forecast s, moves effs,
                         map background (draws effs)))
          (passes example_config scenario ready_state) =
        [(Out, False, [(Idle, Out)], [Some (WeatherBg [(''name'', ''London'')])]),
         (Out, False, [], [Some (WeatherBg [(''name'', ''London'')])]),
         (In, True, [(Out, In)], []),
         (In, True, [], [Some (ForecastBg [(''cnt'', ''40'')])]),
         (Idle, True, [(In, Idle)], [])]"
proof -
  have o: "\<not> is_showing_forecast ready_state" by (simp add: example_defs)
  show ?thesis
    using frames_show_selected_view [of ready_state example_config scenario] o scenario_passes
    by simp
qed

text \<open>
  C6, as the code has it. The marquee is reset (both offsets and the risen flag to
  zero, the completion flag to false) in the pass in which the out phase completes,
  together with the switch of the view. A pass that only enters the out phase leaves
  the two offsets and the risen flag as the refresh step of that pass left them: the
  marquee stays frozen while the out phase runs.
\<close>

theorem marquee_reset_when_out_completes:
  assumes "tick cfg env st = Inr (st', effs)"
  shows "(out_phase_completes cfg env st \<longrightarrow>
            pixelsUp st' = 0 \<and> hasElevated st' = 0 \<and> scroll_x st' = 0
            \<and> \<not> scroll_completion_event_fired st')
       \<and> ((Idle, Out) \<in> set (moves effs) \<and> \<not> out_phase_completes cfg env st \<longrightarrow>
            pixelsUp st' = pixelsUp (fst (refresh_step cfg env st))
            \<and> hasElevated st' = hasElevated (fst (refresh_step cfg env st))
            \<and> scroll_x st' = scroll_x (fst (refresh_step cfg env st)))"
proof -
  let ?st1 = "fst (refresh_step cfg env st)"
  let ?st2 = "fst (entry_step cfg env ?st1)"
  obtain e3 st3 where p: "phase_step cfg env ?st2 = Inr (st3, e3)"
    and s: "st' = fst (log_step env st3)"
    and e: "effs = snd (refresh_step cfg env st) @ snd (entry_step cfg env ?st1) @ e3
                     @ snd (log_step env st3)"
    using tick_steps [OF assms] by blast
  have c: "out_phase_completes cfg env st \<longleftrightarrow>
             transition_state ?st2 = Out
             \<and> t555 env - transition_start_time ?st2 \<ge> TRANSITION_DURATION_SECONDS cfg"
    by (simp add: out_phase_completes_def Let_def)
  have m: "set (moves effs) = set (moves (snd (entry_step cfg env ?st1))) \<union> set (moves e3)"
    by (simp add: e moves_append refresh_step_moves log_step_frame)
  have en: "(Idle, Out) \<in> set (moves (snd (entry_step cfg env ?st1))) \<Longrightarrow> transition_state ?st2 = Out"
    by (simp add: entry_step_def Let_def split: if_splits)
  from p show ?thesis
  proof (cases rule: phase_step_cases)
    case out_done
    then show ?thesis using c s by (simp add: log_step_frame)
  next
    case in_done
    then show ?thesis using c s m en by auto
  next
    case (progress fr)
    then show ?thesis using c s by (simp add: log_step_frame entry_step_frame)
  next
    case (steady fr)
    then show ?thesis using c s m en by auto
  qed
qed

theorem marquee_reset_when_out_completes_witness:
  "\<exists>st' effs. tick example_config (env_at (1010 + 3 / 10)) out_state = Inr (st', effs)
     \<and> out_phase_completes example_config (env_at (1010 + 3 / 10)) out_state
     \<and> pixelsUp out_state = 8 \<and> scroll_x out_state = 146
     \<and> pixelsUp st' = 0 \<and> hasElevated st' = 0 \<and> scroll_x st' = 0
     \<and> \<not> scroll_completion_event_fired st'"
proof -
  obtain st' effs where t: "tick example_config (env_at (1010 + 3 / 10)) out_state = Inr (st', effs)"
    by (simp add: step_defs example_defs2)
  have c: "out_phase_completes example_config (env_at (1010 + 3 / 10)) out_state"
    by (simp add: out_phase_completes_def step_defs example_defs2)
  have o: "pixelsUp out_state = 8 \<and> scroll_x out_state = 146"
    by (simp add: example_defs2)
  show ?thesis using marquee_reset_when_out_completes [OF t] t c o by simp
qed

text \<open>
  The claim C6 as stated fails: the pass at 1010 enters the out phase and the marquee
  still stands at eight pixels up and 146 pixels to the left.
\<close>

theorem marquee_kept_at_out_entry_counterexample:
  "(case tick example_config (env_at 1010) ready_state of
      Inl e \<Rightarrow> False
    | Inr (st', effs) \<Rightarrow>
        moves effs = [(Idle, Out)] \<and> transition_state st' = Out
        \<and> pixelsUp st' = 8 \<and> hasElevated st' = 1 \<and> scroll_x st' = 146)"
  by (simp add: step_defs example_defs)

subsection \<open>Start without a key\<close>

lemma main_loop_never_returns: "main_loop fuel cfg envs k st \<noteq> Some (Returned effs)"
  by (induction fuel arbitrary: k st) (auto split: sum.splits)

lemma main_with_key_never_returns:
  assumes "API_KEY cfg \<noteq> ''key_not_set''" and "API_KEY cfg \<noteq> []"
  shows "main fuel cfg senv envs \<noteq> Some (Returned effs)"
  using assms main_loop_never_returns by (simp add: main_def)

text \<open>
  C8, as the code has it. Without a key (the placeholder \<open>key_not_set\<close> or the empty
  string) \<open>main\<close> returns, whatever the fuel: it draws the message
  \<open>API Key Not Set!\<close>, makes no request, sleeps once for 1800 seconds and ends. The
  loop, and with it the refresh, is never entered.
\<close>

theorem missing_key_sleeps_then_returns:
  assumes "API_KEY cfg = ''key_not_set'' \<or> API_KEY cfg = []"
  shows "\<exists>effs. main fuel cfg senv envs = Some (Returned effs)
           \<and> DrawText ''API Key Not Set!'' (10, 20) \<in> set effs
           \<and> filter is_network effs = []
           \<and> [e \<leftarrow> effs. \<exists>t. e = Sleep t] = [Sleep 1800]
           \<and> last effs = Sleep 1800"
  using assms by (auto simp: main_def)

theorem missing_key_sleeps_then_returns_witness:
  "API_KEY (example_config\<lparr>API_KEY := ''key_not_set''\<rparr>) = ''key_not_set''
   \<and> (\<exists>effs. main 5 (example_config\<lparr>API_KEY := ''key_not_set''\<rparr>) example_startup example_clock
                = Some (Returned effs)
         \<and> last effs = Sleep 1800 \<and> filter is_network effs = [])"
proof -
  have k: "API_KEY (example_config\<lparr>API_KEY := ''key_not_set''\<rparr>) = ''key_not_set''" by simp
  show ?thesis
    using missing_key_sleeps_then_returns
      [of "example_config\<lparr>API_KEY := ''key_not_set''\<rparr>" 5 example_startup example_clock] k
    by blast
qed

text \<open>
  The claim C8 as stated fails: with the placeholder key \<open>main\<close> does not go on
  for ever, it has returned before the first iteration of the loop.
\<close>

theorem missing_key_returns_counterexample:
  "main 0 (example_config\<lparr>API_KEY := ''key_not_set''\<rparr>) example_startup example_clock \<noteq> None"
  by (simp add: main_def)

subsection \<open>Operating hours\<close>

lemma operating_hours_wrapping_window:
  "is_within_operating_hours python_int ''22-6'' 23
   \<and> \<not> is_within_operating_hours python_int ''22-6'' 10"
  by code_simp

text \<open>
  What \<open>int\<close> skips and what it does not: \<open>U+00A0\<close> before the digits is skipped,
  \<open>0x1f\<close> after them is not. So the first string below is a window from 8 to 22 and
  the second is malformed.
\<close>

lemma python_int_spaces:
  "python_int (CHR 0xA0 # ''22'') = Inr 22 \<and> python_int (''22'' @ [CHR 0x1F]) = Inl ValueError"
  by code_simp

lemma operating_hours_spaces:
  "\<not> is_within_operating_hours python_int (''8-'' @ CHR 0xA0 # ''22'') 3
   \<and> is_within_operating_hours python_int (''8-22'' @ [CHR 0x1F]) 3"
  by code_simp

text \<open>
  C10. Whatever \<open>int\<close> accepts: an operating-hours string that is not two parts
  separated by one \<open>-\<close>, both accepted by \<open>int\<close> (no such decomposition exists: too
  few or too many parts, an empty part, a part that \<open>int\<close> rejects) makes
  \<open>is_within_operating_hours\<close> answer \<open>True\<close>, at every hour of the day: the display
  stays on.
\<close>

theorem operating_hours_malformed_on:
  assumes "\<not> (\<exists>a b. operating_hours_str = a @ CHR ''-'' # b
             \<and> CHR ''-'' \<notin> set a \<and> CHR ''-'' \<notin> set b
             \<and> \<not> isl (to_int a) \<and> \<not> isl (to_int b))"
  shows "is_within_operating_hours to_int operating_hours_str now_hour = True"
proof (cases "unpack_hours to_int operating_hours_str")
  case (Inl e)
  then show ?thesis by (simp add: is_within_operating_hours_def)
next
  case (Inr p)
  then obtain a b where ab: "split_on CHR ''-'' operating_hours_str = [a, b]"
    and "\<not> isl (to_int a)" and "\<not> isl (to_int b)"
    by (auto simp: unpack_hours_def split: list.splits sum.splits)
  with assms show ?thesis
    by (auto simp: split_on_two)
qed

theorem operating_hours_malformed_on_witness:
  "\<not> (\<exists>a b. ''8-x'' = a @ CHR ''-'' # b
             \<and> CHR ''-'' \<notin> set a \<and> CHR ''-'' \<notin> set b
             \<and> \<not> isl (python_int a) \<and> \<not> isl (python_int b))
   \<and> is_within_operating_hours python_int ''8-x'' 3 = True
   \<and> is_within_operating_hours python_int '''' 23 = True
   \<and> is_within_operating_hours python_int ''8-22-6'' 12 = True
   \<and> is_within_operating_hours python_int (''8-22'' @ [CHR 0x1F]) 3 = True"
proof -
  have x: "python_int ''x'' = Inl ValueError" by code_simp
  have y: "python_int (''22'' @ [CHR 0x1F]) = Inl ValueError" by code_simp
  have h1: "\<not> (\<exists>a b. ''8-x'' = a @ CHR ''-'' # b
             \<and> CHR ''-'' \<notin> set a \<and> CHR ''-'' \<notin> set b
             \<and> \<not> isl (python_int a) \<and> \<not> isl (python_int b))"
    by (auto simp: Cons_eq_append_conv x)
  have h2: "\<not> (\<exists>a b. '''' = a @ CHR ''-'' # b
             \<and> CHR ''-'' \<notin> set a \<and> CHR ''-'' \<notin> set b
             \<and> \<not> isl (python_int a) \<and> \<not> isl (python_int b))"
    by simp
  have h3: "\<not> (\<exists>a b. ''8-22-6'' = a @ CHR ''-'' # b
             \<and> CHR ''-'' \<notin> set a \<and> CHR ''-'' \<notin> set b
             \<and> \<not> isl (python_int a) \<and> \<not> isl (python_int b))"
    by (auto simp: Cons_eq_append_conv)
  have h4: "\<not> (\<exists>a b. ''8-22'' @ [CHR 0x1F] = a @ CHR ''-'' # b
             \<and> CHR ''-'' \<notin> set a \<and> CHR ''-'' \<notin> set b
             \<and> \<not> isl (python_int a) \<and> \<not> isl (python_int b))"
    using y by (auto simp: Cons_eq_append_conv)
  show ?thesis
    using h1 operating_hours_malformed_on [OF h1, of 3] operating_hours_malformed_on [OF h2, of 23]
      operating_hours_malformed_on [OF h3, of 12] operating_hours_malformed_on [OF h4, of 3]
    by blast
qed

end
